theory Spec2Isabelle
  imports Complex_Main "HOL-Library.AList"
begin

section \<open>Python strings\<close>

text \<open>
  A Python \<^verbatim>\<open>str\<close> is modelled as a \<^typ>\<open>string\<close> whose characters are its code
  points; the model covers the code points below 256. \<^verbatim>\<open>str.isspace\<close>,
  \<^verbatim>\<open>str.strip\<close>, \<^verbatim>\<open>str.lower\<close> and the regular-expression class \<^verbatim>\<open>\s\<close> are
  written out for that range.
\<close>

definition isspace :: "char \<Rightarrow> bool" where
  "isspace c = (c \<in> set [CHR 0x09, CHR 0x0A, CHR 0x0B, CHR 0x0C, CHR 0x0D,
                          CHR 0x1C, CHR 0x1D, CHR 0x1E, CHR 0x1F, CHR 0x20,
                          CHR 0x85, CHR 0xA0])"

definition lstrip :: "string \<Rightarrow> string" where
  "lstrip s = dropWhile isspace s"

definition rstrip :: "string \<Rightarrow> string" where
  "rstrip s = rev (dropWhile isspace (rev s))"

definition strip :: "string \<Rightarrow> string" where
  "strip s = rstrip (lstrip s)"

text \<open>
  \<^verbatim>\<open>str.lower\<close> on the code points below 256: the letters \<^verbatim>\<open>A\<close> to \<^verbatim>\<open>Z\<close> and the
  Latin-1 capitals \<^verbatim>\<open>U+00C0\<close> to \<^verbatim>\<open>U+00DE\<close> (without \<^verbatim>\<open>U+00D7\<close>) move up by 32.
\<close>

definition upper_chars :: string where
  "upper_chars = ''ABCDEFGHIJKLMNOPQRSTUVWXYZ'' @
     [CHR 0xC0, CHR 0xC1, CHR 0xC2, CHR 0xC3, CHR 0xC4, CHR 0xC5, CHR 0xC6,
      CHR 0xC7, CHR 0xC8, CHR 0xC9, CHR 0xCA, CHR 0xCB, CHR 0xCC, CHR 0xCD,
      CHR 0xCE, CHR 0xCF, CHR 0xD0, CHR 0xD1, CHR 0xD2, CHR 0xD3, CHR 0xD4,
      CHR 0xD5, CHR 0xD6, CHR 0xD8, CHR 0xD9, CHR 0xDA, CHR 0xDB, CHR 0xDC,
      CHR 0xDD, CHR 0xDE]"

definition lower_chars :: string where
  "lower_chars = ''abcdefghijklmnopqrstuvwxyz'' @
     [CHR 0xE0, CHR 0xE1, CHR 0xE2, CHR 0xE3, CHR 0xE4, CHR 0xE5, CHR 0xE6,
      CHR 0xE7, CHR 0xE8, CHR 0xE9, CHR 0xEA, CHR 0xEB, CHR 0xEC, CHR 0xED,
      CHR 0xEE, CHR 0xEF, CHR 0xF0, CHR 0xF1, CHR 0xF2, CHR 0xF3, CHR 0xF4,
      CHR 0xF5, CHR 0xF6, CHR 0xF8, CHR 0xF9, CHR 0xFA, CHR 0xFB, CHR 0xFC,
      CHR 0xFD, CHR 0xFE]"

definition lower_char :: "char \<Rightarrow> char" where
  "lower_char c = (case map_of (zip upper_chars lower_chars) c of None \<Rightarrow> c | Some l \<Rightarrow> l)"

definition lower :: "string \<Rightarrow> string" where
  "lower s = map lower_char s"

text \<open>
  \<^verbatim>\<open>re.sub(r"[class]+", rep, s)\<close>: every maximal run of characters of the class is
  replaced by one copy of \<open>rep\<close>.
\<close>

function sub_runs :: "(char \<Rightarrow> bool) \<Rightarrow> string \<Rightarrow> string \<Rightarrow> string" where
  "sub_runs P rep [] = []"
| "sub_runs P rep (c # cs) =
     (if P c then rep @ sub_runs P rep (dropWhile P cs) else c # sub_runs P rep cs)"
  by pat_completeness auto
termination
  by (relation "measure (\<lambda>(P, rep, s). length s)")
     (auto simp: length_dropWhile_le less_Suc_eq_le)

text \<open>\<^verbatim>\<open>needle in haystack\<close> on strings.\<close>

fun contains :: "string \<Rightarrow> string \<Rightarrow> bool" where
  "contains [] needle = (needle = [])"
| "contains (c # cs) needle =
     (take (length needle) (c # cs) = needle \<or> contains cs needle)"

definition startswith :: "string \<Rightarrow> string \<Rightarrow> bool" where
  "startswith s p = (take (length p) s = p)"

definition endswith :: "string \<Rightarrow> string \<Rightarrow> bool" where
  "endswith s p = (length p \<le> length s \<and> drop (length s - length p) s = p)"

text \<open>\<^verbatim>\<open>sep.join(xs)\<close>.\<close>

fun join :: "string \<Rightarrow> string list \<Rightarrow> string" where
  "join sep [] = []"
| "join sep [x] = x"
| "join sep (x # y # ys) = x @ sep @ join sep (y # ys)"

section \<open>util.py: safe_filename\<close>

text \<open>The class \<^verbatim>\<open>[A-Za-z0-9._ -]\<close> of \<^verbatim>\<open>_SAFE_FILENAME_RE\<close>.\<close>

definition safe_char :: "char \<Rightarrow> bool" where
  "safe_char c =
     (c \<in> set ''ABCDEFGHIJKLMNOPQRSTUVWXYZabcdefghijklmnopqrstuvwxyz0123456789._ -'')"

definition safe_filename :: "nat \<Rightarrow> string \<Rightarrow> string" where
  "safe_filename max_len name0 =
     (let name1 = filter (\<lambda>c. c \<noteq> CHR 0x00) (strip name0);
          name2 = sub_runs (\<lambda>c. \<not> safe_char c) ''_'' name1;
          name3 = strip (sub_runs isspace '' '' name2);
          name4 = (if name3 = [] then ''untitled'' else name3)
      in if length name4 > max_len then rstrip (take max_len name4) else name4)"

text \<open>No two spaces in a row.\<close>

fun single_spaces :: "string \<Rightarrow> bool" where
  "single_spaces [] = True"
| "single_spaces [a] = True"
| "single_spaces (a # b # cs) = ((a \<noteq> CHR '' '' \<or> b \<noteq> CHR '' '') \<and> single_spaces (b # cs))"

section \<open>library.py: paths and the vault location\<close>

text \<open>
  A \<^verbatim>\<open>pathlib\<close> POSIX path is the list of its \<^verbatim>\<open>parts\<close>; an absolute path starts
  with the part \<^verbatim>\<open>/\<close> (or \<^verbatim>\<open>//\<close> for exactly two leading slashes). Parsing a
  string drops empty and \<^verbatim>\<open>.\<close> segments.
\<close>

type_synonym path = "string list"

fun split_slash :: "string \<Rightarrow> string list" where
  "split_slash [] = [[]]"
| "split_slash (c # cs) =
     (if c = CHR ''/'' then [] # split_slash cs
      else (case split_slash cs of [] \<Rightarrow> [[c]] | w # ws \<Rightarrow> (c # w) # ws))"

definition Path :: "string \<Rightarrow> path" where
  "Path s =
     (let n = length (takeWhile (\<lambda>c. c = CHR ''/'') s);
          segs = filter (\<lambda>p. p \<noteq> [] \<and> p \<noteq> ''.'') (split_slash s)
      in (if n = 2 then [''//''] else if 1 \<le> n then [''/''] else []) @ segs)"

definition is_absolute :: "path \<Rightarrow> bool" where
  "is_absolute p = (case p of [] \<Rightarrow> False | r # _ \<Rightarrow> r = ''/'' \<or> r = ''//'')"

text \<open>\<^verbatim>\<open>p / q\<close> for two paths, and \<^verbatim>\<open>p / s\<close> for a path and a string.\<close>

definition div_path :: "path \<Rightarrow> path \<Rightarrow> path" where
  "div_path p q = (if is_absolute q then q else p @ q)"

definition div_str :: "path \<Rightarrow> string \<Rightarrow> path" where
  "div_str p s = div_path p (Path s)"

definition vault_dir :: "path \<Rightarrow> path" where
  "vault_dir lib_root = div_str lib_root ''vault''"

definition vault_path_for_hash :: "path \<Rightarrow> string \<Rightarrow> path" where
  "vault_path_for_hash lib_root sha256_hex =
     (let prefix = div_str (Path (take 2 sha256_hex)) (take 2 (drop 2 sha256_hex))
      in div_str (div_path (vault_dir lib_root) prefix) (sha256_hex @ ''.pdf''))"

definition hexdigit :: "char \<Rightarrow> bool" where
  "hexdigit c = (c \<in> set ''0123456789abcdefABCDEF'')"

section \<open>categorizer.py: the rule scorer\<close>

text \<open>
  Names of the source that start with an underscore are written without it
  (\<^verbatim>\<open>_any_kw\<close> is \<open>any_kw\<close>); \<^verbatim>\<open>_lower\<close> is \<open>lower_opt\<close>. A Python \<^verbatim>\<open>float\<close> is
  modelled as a \<^typ>\<open>real\<close>. A value that may be \<^verbatim>\<open>None\<close>, and a dictionary key
  that may be absent, is an \<^typ>\<open>'a option\<close>.
\<close>

record categorization =
  category :: string
  score :: real
  reason :: string

text \<open>One entry of \<^verbatim>\<open>cfg["categories"]\<close>. \<open>min_pages\<close> and \<open>max_pages\<close> are \<open>None\<close>
  when the key is absent or its value is not an \<^verbatim>\<open>int\<close>.\<close>

record category_rule =
  rule_name :: "string option"
  min_pages :: "int option"
  max_pages :: "int option"
  path_keywords_any :: "string list"
  filename_keywords_any :: "string list"
  metadata_keywords_any :: "string list"
  text_keywords_any :: "string list"
  priority :: "real option"

record config =
  cfg_default_category :: "string option"
  cfg_min_score :: "real option"
  cfg_categories :: "category_rule list"

text \<open>The keyword arguments of \<^verbatim>\<open>categorize\<close> that describe the document.\<close>

record doc_attrs =
  source_path :: "string option"
  source_basename :: "string option"
  title :: "string option"
  subject :: "string option"
  keywords_meta :: "string option"
  authors :: "string option"
  text_sample :: "string option"
  page_count :: "int option"

text \<open>\<^verbatim>\<open>d.get(key, default)\<close>.\<close>

definition get_or :: "'a \<Rightarrow> 'a option \<Rightarrow> 'a" where
  "get_or d v = (case v of None \<Rightarrow> d | Some x \<Rightarrow> x)"

definition default_category_of :: "config \<Rightarrow> string" where
  "default_category_of cfg = get_or ''Unsorted'' (cfg_default_category cfg)"

definition min_score_of :: "config \<Rightarrow> real" where
  "min_score_of cfg = get_or 4 (cfg_min_score cfg)"

definition lower_opt :: "string option \<Rightarrow> string" where
  "lower_opt s = lower (get_or [] s)"

definition any_kw :: "string \<Rightarrow> string list \<Rightarrow> string list" where
  "any_kw haystack kws =
     (let hs = lower haystack
      in filter (\<lambda>kw. let kw_l = strip (lower kw) in kw_l \<noteq> [] \<and> contains hs kw_l) kws)"

text \<open>
  One of the four keyword blocks of the loop body: with at least one hit the channel adds
  \<open>base + 0.25 * (len(hits) - 1)\<close> to the score and \<open>label:first hit\<close> to the reasons.
\<close>

definition channel :: "real \<Rightarrow> string \<Rightarrow> string list \<Rightarrow> real \<times> string list \<Rightarrow> real \<times> string list" where
  "channel base label hits acc =
     (case acc of (sc, reasons) \<Rightarrow>
        if hits \<noteq> []
        then (sc + (base + 0.25 * (real (length hits) - 1)), reasons @ [label @ hd hits])
        else (sc, reasons))"

text \<open>The haystacks computed before the loop.\<close>

record haystacks =
  path_l :: string
  base_l :: string
  meta_l :: string
  text_l :: string

definition haystacks_of :: "doc_attrs \<Rightarrow> haystacks" where
  "haystacks_of d =
     \<lparr> path_l = lower_opt (source_path d),
       base_l = lower_opt (source_basename d),
       meta_l = join '' '' [lower_opt (title d), lower_opt (subject d),
                            lower_opt (keywords_meta d), lower_opt (authors d)],
       text_l = lower_opt (text_sample d) \<rparr>"

text \<open>The score and the reasons of one rule, after the four blocks and the priority.\<close>

definition rule_score :: "haystacks \<Rightarrow> category_rule \<Rightarrow> real \<times> string list" where
  "rule_score h cat =
     (case channel 4 ''text:'' (any_kw (text_l h) (text_keywords_any cat))
            (channel 3 ''meta:'' (any_kw (meta_l h) (metadata_keywords_any cat))
              (channel 2 ''filename:'' (any_kw (base_l h) (filename_keywords_any cat))
                (channel 2 ''path:'' (any_kw (path_l h) (path_keywords_any cat)) (0, []))))
      of (sc, reasons) \<Rightarrow> (sc + get_or 0 (priority cat) * 0.000001, reasons))"

text \<open>The body of the loop over \<^verbatim>\<open>cfg["categories"]\<close>; \<open>best\<close> is the loop's variable.\<close>

definition categorize_rule ::
  "haystacks \<Rightarrow> int option \<Rightarrow> category_rule \<Rightarrow> categorization \<Rightarrow> categorization" where
  "categorize_rule h pages cat best =
     (let name = strip (get_or [] (rule_name cat))
      in if name = [] then best
         else if (case pages of None \<Rightarrow> False
                  | Some pc \<Rightarrow> (case min_pages cat of None \<Rightarrow> False | Some m \<Rightarrow> pc < m))
         then best
         else if (case pages of None \<Rightarrow> False
                  | Some pc \<Rightarrow> (case max_pages cat of None \<Rightarrow> False | Some m \<Rightarrow> pc > m))
         then best
         else (case rule_score h cat of (sc, reasons) \<Rightarrow>
                 if sc > score best
                 then \<lparr> category = name, score = sc,
                        reason = (if join '', '' reasons = [] then ''matched category''
                                  else join '', '' reasons) \<rparr>
                 else best))"

fun categorize_loop ::
  "haystacks \<Rightarrow> int option \<Rightarrow> category_rule list \<Rightarrow> categorization \<Rightarrow> categorization" where
  "categorize_loop h pages [] best = best"
| "categorize_loop h pages (cat # cats) best =
     categorize_loop h pages cats (categorize_rule h pages cat best)"

definition categorize :: "config \<Rightarrow> doc_attrs \<Rightarrow> categorization" where
  "categorize cfg d =
     (let default_category = default_category_of cfg;
          min_score = min_score_of cfg;
          best = categorize_loop (haystacks_of d) (page_count d) (cfg_categories cfg)
                   \<lparr> category = default_category, score = 0, reason = ''no rules matched'' \<rparr>
      in if score best < min_score
         then \<lparr> category = default_category, score = score best,
                reason = ''below min_score; defaulted'' \<rparr>
         else best)"

text \<open>No keyword channel of the rule matches the document.\<close>

definition no_channel_matches :: "doc_attrs \<Rightarrow> category_rule \<Rightarrow> bool" where
  "no_channel_matches d cat =
     (any_kw (path_l (haystacks_of d)) (path_keywords_any cat) = [] \<and>
      any_kw (base_l (haystacks_of d)) (filename_keywords_any cat) = [] \<and>
      any_kw (meta_l (haystacks_of d)) (metadata_keywords_any cat) = [] \<and>
      any_kw (text_l (haystacks_of d)) (text_keywords_any cat) = [])"

section \<open>llm.py: values, the standard library, the provider\<close>

text \<open>
  An exception is a value of type \<open>error\<close>; a function that can raise returns
  \<open>error + 'a\<close>. \<open>OtherError\<close> stands for every exception that is not an
  \<^verbatim>\<open>LLMError\<close>.
\<close>

datatype error = LLMError string | OtherError string

text \<open>A Python \<^verbatim>\<open>float\<close> that comes out of a parser can be infinite or not a number.\<close>

datatype pyfloat = Fin real | PosInf | NegInf | NaN

text \<open>
  The Python values a parser can produce. \<open>POther\<close> is any other object
  (a tuple, a set, bytes, a complex number), known only by an identifier.
\<close>

datatype pyval =
    PNone
  | PBool bool
  | PInt int
  | PFloat pyfloat
  | PStr string
  | PList "pyval list"
  | PDict "(pyval \<times> pyval) list"
  | POther nat

text \<open>A \<^verbatim>\<open>dict\<close> is the list of its items in insertion order, with distinct keys.\<close>

type_synonym pydict = "(pyval \<times> pyval) list"

definition dict_get :: "pydict \<Rightarrow> string \<Rightarrow> pyval option" where
  "dict_get d k = map_of d (PStr k)"

definition dict_set :: "string \<Rightarrow> pyval \<Rightarrow> pydict \<Rightarrow> pydict" where
  "dict_set k v d = AList.update (PStr k) v d"

text \<open>The three patterns that \<^verbatim>\<open>_extract_object_by_regex\<close> searches for.\<close>

datatype field_pattern = Category_pattern | Confidence_pattern | Reason_pattern

text \<open>
  The functions of the Python standard library that \<^verbatim>\<open>llm.py\<close> calls, as parameters:
  a parser returns \<open>None\<close> where it raises. \<open>code_fence_sub\<close> is
  \<^verbatim>\<open>_CODE_FENCE_RE.sub("", t)\<close>; \<open>replace_smart_quotes\<close> is the chain of four
  \<^verbatim>\<open>str.replace\<close> calls on the quotation marks \<^verbatim>\<open>U+201C\<close>, \<^verbatim>\<open>U+201D\<close>, \<^verbatim>\<open>U+2018\<close>,
  \<^verbatim>\<open>U+2019\<close>; \<open>raw_decode\<close> is the object that \<^verbatim>\<open>JSONDecoder.raw_decode\<close> returns;
  \<open>re_search\<close> is group 1 of \<^verbatim>\<open>re.search\<close> with the given pattern; \<open>format_2f\<close>
  is the format \<^verbatim>\<open>:.2f\<close>; \<open>repr\<close> is \<^verbatim>\<open>str\<close> on a value that is not a string.
\<close>

record pylib =
  code_fence_sub :: "string \<Rightarrow> string"
  replace_smart_quotes :: "string \<Rightarrow> string"
  json_loads :: "string \<Rightarrow> pyval option"
  raw_decode :: "string \<Rightarrow> pyval option"
  literal_eval :: "string \<Rightarrow> pyval option"
  re_search :: "field_pattern \<Rightarrow> string \<Rightarrow> string option"
  float_of_str :: "string \<Rightarrow> pyfloat option"
  float_of_other :: "nat \<Rightarrow> pyfloat option"
  truthy_other :: "nat \<Rightarrow> bool"
  repr :: "pyval \<Rightarrow> string"
  format_2f :: "real \<Rightarrow> string"

text \<open>\<^verbatim>\<open>str(v)\<close>, \<^verbatim>\<open>bool(v)\<close> and \<^verbatim>\<open>float(v)\<close>; \<open>None\<close> where \<^verbatim>\<open>float\<close> raises.\<close>

definition py_str :: "pylib \<Rightarrow> pyval \<Rightarrow> string" where
  "py_str lib v = (case v of PStr s \<Rightarrow> s | _ \<Rightarrow> repr lib v)"

definition truthy :: "pylib \<Rightarrow> pyval \<Rightarrow> bool" where
  "truthy lib v =
     (case v of
        PNone \<Rightarrow> False
      | PBool b \<Rightarrow> b
      | PInt i \<Rightarrow> i \<noteq> 0
      | PFloat f \<Rightarrow> f \<noteq> Fin 0
      | PStr s \<Rightarrow> s \<noteq> []
      | PList xs \<Rightarrow> xs \<noteq> []
      | PDict d \<Rightarrow> d \<noteq> []
      | POther n \<Rightarrow> truthy_other lib n)"

definition py_float :: "pylib \<Rightarrow> pyval \<Rightarrow> pyfloat option" where
  "py_float lib v =
     (case v of
        PNone \<Rightarrow> None
      | PBool b \<Rightarrow> Some (Fin (if b then 1 else 0))
      | PInt i \<Rightarrow> (if \<bar>i\<bar> < 2 ^ 1024 - 2 ^ 970 then Some (Fin (real_of_int i)) else None)
      | PFloat f \<Rightarrow> Some f
      | PStr s \<Rightarrow> float_of_str lib s
      | PList xs \<Rightarrow> None
      | PDict d \<Rightarrow> None
      | POther n \<Rightarrow> float_of_other lib n)"

text \<open>\<^verbatim>\<open>max(0.0, min(1.0, conf))\<close>: \<^verbatim>\<open>min\<close> and \<^verbatim>\<open>max\<close> keep their first argument
  unless the second compares strictly less, respectively greater.\<close>

definition py_min1 :: "pyfloat \<Rightarrow> pyfloat" where
  "py_min1 conf =
     (case conf of Fin r \<Rightarrow> (if r < 1 then Fin r else Fin 1)
      | NegInf \<Rightarrow> NegInf | PosInf \<Rightarrow> Fin 1 | NaN \<Rightarrow> Fin 1)"

definition py_max0 :: "pyfloat \<Rightarrow> real" where
  "py_max0 x = (case x of Fin r \<Rightarrow> (if r > 0 then r else 0) | PosInf \<Rightarrow> 0 | NegInf \<Rightarrow> 0 | NaN \<Rightarrow> 0)"

definition clamp01 :: "pyfloat \<Rightarrow> real" where
  "clamp01 conf = py_max0 (py_min1 conf)"

text \<open>\<^verbatim>\<open>s.find(c)\<close> and \<^verbatim>\<open>s.rfind(c)\<close> for one character, and the slice \<^verbatim>\<open>s[i:j]\<close> for
  indices that are not negative.\<close>

definition str_find :: "string \<Rightarrow> char \<Rightarrow> int" where
  "str_find s c = (if c \<in> set s then int (length (takeWhile (\<lambda>x. x \<noteq> c) s)) else - 1)"

definition str_rfind :: "string \<Rightarrow> char \<Rightarrow> int" where
  "str_rfind s c =
     (if c \<in> set s then int (length s) - 1 - int (length (takeWhile (\<lambda>x. x \<noteq> c) (rev s)))
      else - 1)"

definition slice :: "string \<Rightarrow> int \<Rightarrow> int \<Rightarrow> string" where
  "slice s i j = take (nat j - nat i) (drop (nat i) s)"

section \<open>llm.py: the response extractor\<close>

text \<open>A value if it is present and a \<^verbatim>\<open>dict\<close>, respectively a \<^verbatim>\<open>str\<close>.\<close>

definition as_dict :: "pyval option \<Rightarrow> pydict option" where
  "as_dict v = (case v of Some (PDict d) \<Rightarrow> Some d | _ \<Rightarrow> None)"

definition as_str :: "pyval option \<Rightarrow> string option" where
  "as_str v = (case v of Some (PStr x) \<Rightarrow> Some x | _ \<Rightarrow> None)"

definition extract_object_by_regex :: "pylib \<Rightarrow> string \<Rightarrow> pydict" where
  "extract_object_by_regex lib text =
     (let out0 = [];
          out1 = (case re_search lib Category_pattern text of
                    None \<Rightarrow> out0 | Some g \<Rightarrow> dict_set ''category'' (PStr (strip g)) out0);
          out2 = (case re_search lib Confidence_pattern text of
                    None \<Rightarrow> out1 | Some g \<Rightarrow> dict_set ''confidence'' (PStr g) out1);
          out3 = (case re_search lib Reason_pattern text of
                    None \<Rightarrow> out2 | Some g \<Rightarrow> dict_set ''reason'' (PStr (strip g)) out2)
      in out3)"

text \<open>The scan over every \<^verbatim>\<open>{\<close> of the text: the objects that \<^verbatim>\<open>raw_decode\<close> finds
  at these positions and that are dictionaries, in order.\<close>

fun scan_candidates :: "pylib \<Rightarrow> string \<Rightarrow> pydict list" where
  "scan_candidates lib [] = []"
| "scan_candidates lib (ch # rest) =
     (if ch \<noteq> CHR ''{'' then scan_candidates lib rest
      else (case as_dict (raw_decode lib (ch # rest)) of
              Some obj \<Rightarrow> obj # scan_candidates lib rest
            | None \<Rightarrow> scan_candidates lib rest))"

definition is_str :: "pyval option \<Rightarrow> bool" where
  "is_str v = (as_str v \<noteq> None)"

text \<open>\<^verbatim>\<open>{str(k): v for k, v in obj2.items()}\<close>.\<close>

definition str_keys :: "pylib \<Rightarrow> pydict \<Rightarrow> pydict" where
  "str_keys lib obj2 = fold (\<lambda>(k, v) d. dict_set (py_str lib k) v d) obj2 []"

definition extract_json_object :: "pylib \<Rightarrow> string \<Rightarrow> error + pydict" where
  "extract_json_object lib text =
     (let t = strip text
      in if t = [] then Inl (LLMError ''Empty model output'')
         else
           let t2 = replace_smart_quotes lib (strip (code_fence_sub lib t));
               direct = (if startswith t2 ''{'' \<and> endswith t2 ''}''
                         then as_dict (json_loads lib t2) else None)
           in case direct of
                Some obj \<Rightarrow> Inr obj
              | None \<Rightarrow>
                  let candidates = scan_candidates lib t2
                  in case find (\<lambda>obj. is_str (dict_get obj ''category'')) candidates of
                       Some obj \<Rightarrow> Inr obj
                     | None \<Rightarrow>
                         (case candidates of
                            obj # _ \<Rightarrow> Inr obj
                          | [] \<Rightarrow>
                              let start = str_find t2 CHR ''{'';
                                  end = str_rfind t2 CHR ''}''
                              in if start = - 1 \<or> end = - 1 \<or> end \<le> start
                                 then Inr (extract_object_by_regex lib t2)
                                 else
                                   let candidate = slice t2 start (end + 1)
                                   in case as_dict (json_loads lib candidate) of
                                        Some obj \<Rightarrow> Inr obj
                                      | None \<Rightarrow>
                                          (case as_dict (literal_eval lib candidate) of
                                             Some obj2 \<Rightarrow> Inr (str_keys lib obj2)
                                           | None \<Rightarrow> Inr (extract_object_by_regex lib t2))))"

section \<open>llm.py: the classifier\<close>

definition normalize_category_name :: "string \<Rightarrow> string" where
  "normalize_category_name name =
     (let s1 = strip (lower name);
          s2 = sub_runs (\<lambda>c. c \<notin> set ''abcdefghijklmnopqrstuvwxyz0123456789'') '' '' s1
      in strip (sub_runs isspace '' '' s2))"

record llm_classification =
  llm_category :: string
  confidence :: real
  llm_reason :: string
  raw_text :: string

text \<open>The request that \<^verbatim>\<open>classify_with_uzu\<close> posts.\<close>

record http_request =
  req_url :: string
  req_prompt :: string
  req_model :: "string option"
  req_max_completion_tokens :: int
  req_timeout_seconds :: real

text \<open>
  What the classifier reads from outside: the environment variable
  \<^verbatim>\<open>UZU_BASE_URL\<close>, the reply of \<^verbatim>\<open>_http_post_json\<close> (the parsed body, or the exception
  it raises), the seconds between the two readings of the clock, and the prompt text. The
  prompt only travels to the provider; \<^verbatim>\<open>build_categorization_prompt\<close> and
  \<^verbatim>\<open>_format_source_path\<close> are parameters that receive the arguments the source passes.
\<close>

record environment =
  uzu_base_url :: "string option"
  http_post_json :: "http_request \<Rightarrow> error + pyval"
  elapsed_seconds :: real
  format_source_path :: "string option \<Rightarrow> string \<Rightarrow> int \<Rightarrow> string option"
  build_categorization_prompt :: "string list \<Rightarrow> string \<Rightarrow> doc_attrs \<Rightarrow> string"
  response_keys :: "pydict \<Rightarrow> string"

text \<open>The effect that is counted: the number of calls of the completion provider
  \<^verbatim>\<open>classify_with_uzu\<close> so far.\<close>

record world =
  provider_calls :: nat

text \<open>The part of \<^verbatim>\<open>classify_with_uzu\<close> that reads the text out of the reply; calling
  \<^verbatim>\<open>.get\<close> on a reply that is not a dictionary raises an \<^verbatim>\<open>AttributeError\<close>.\<close>

definition response_text :: "environment \<Rightarrow> pyval \<Rightarrow> error + string" where
  "response_text env resp =
     (case resp of
        PDict r \<Rightarrow>
          (let first = (case dict_get r ''choices'' of
                          Some (PList (c # _)) \<Rightarrow> as_dict (Some c) | _ \<Rightarrow> None);
               content = (case first of
                            None \<Rightarrow> None
                          | Some f \<Rightarrow>
                              (case as_dict (dict_get f ''message'') of
                                 None \<Rightarrow> None
                               | Some msg \<Rightarrow> as_str (dict_get msg ''content'')));
               text = (case first of None \<Rightarrow> None | Some f \<Rightarrow> as_str (dict_get f ''text''))
           in case content of
                Some c \<Rightarrow> Inr c
              | None \<Rightarrow>
                  (case text of
                     Some t \<Rightarrow> Inr t
                   | None \<Rightarrow>
                       (case as_str (dict_get r ''output_text'') of
                          Some t \<Rightarrow> Inr t
                        | None \<Rightarrow>
                            Inl (LLMError (''Unexpected UZU response shape: keys=''
                                           @ response_keys env r)))))
      | _ \<Rightarrow> Inl (OtherError ''AttributeError''))"

definition classify_with_uzu ::
  "environment \<Rightarrow> string \<Rightarrow> string option \<Rightarrow> string \<Rightarrow> real \<Rightarrow> int \<Rightarrow> world
     \<Rightarrow> (error + string) \<times> world" where
  "classify_with_uzu env base_url model prompt timeout_seconds max_output_tokens w =
     (let w1 = w\<lparr> provider_calls := provider_calls w + 1 \<rparr>;
          base = rev (dropWhile (\<lambda>c. c = CHR ''/'') (rev (strip base_url)))
      in if base = []
         then (Inl (LLMError ''Missing UZU_BASE_URL (e.g. http://localhost:8000)''), w1)
         else
           (case http_post_json env
                   \<lparr> req_url = base @ ''/chat/completions'', req_prompt = prompt,
                     req_model = (if model = Some [] then None else model),
                     req_max_completion_tokens = max_output_tokens,
                     req_timeout_seconds = timeout_seconds \<rparr> of
              Inl e \<Rightarrow> (Inl e, w1)
            | Inr resp \<Rightarrow> (response_text env resp, w1)))"

text \<open>The arguments of \<^verbatim>\<open>llm_classify_category\<close> other than the document's attributes.\<close>

record classify_args =
  arg_provider :: string
  arg_model :: string
  arg_categories :: "string list"
  arg_default_category :: string
  arg_timeout_seconds :: real
  arg_max_output_tokens :: int
  arg_path_mode :: string
  arg_path_tail_parts :: int

text \<open>\<^verbatim>\<open>list(dict.fromkeys(xs))\<close>: the first occurrence of every element, in order.\<close>

definition dedupe_first :: "string list \<Rightarrow> string list" where
  "dedupe_first xs = rev (remdups (rev xs))"

text \<open>\<^verbatim>\<open>{_normalize_category_name(c): c for c in allowed}\<close>.\<close>

definition normalized_map :: "string list \<Rightarrow> (string \<times> string) list" where
  "normalized_map allowed = fold (\<lambda>c d. AList.update (normalize_category_name c) c d) allowed []"

text \<open>
  The second half of \<^verbatim>\<open>llm_classify_category\<close>, from the provider's raw text to the
  classification: the extraction, the category match, the clamped confidence and the
  reason.
\<close>

definition classify_reply ::
  "pylib \<Rightarrow> environment \<Rightarrow> classify_args \<Rightarrow> string \<Rightarrow> error + llm_classification" where
  "classify_reply lib env a raw =
     (let allowed = dedupe_first (arg_categories a @ [arg_default_category a]);
          normalized = normalized_map allowed
      in case extract_json_object lib raw of
           Inl e \<Rightarrow> Inl e
         | Inr parsed \<Rightarrow>
             (let cat_raw = dict_get parsed ''category'';
                  conf_raw = dict_get parsed ''confidence'';
                  reason_raw = dict_get parsed ''reason''
              in case as_str cat_raw of
                   None \<Rightarrow>
                     Inr \<lparr> llm_category = arg_default_category a, confidence = 0,
                           llm_reason = ''missing/invalid category; defaulted'',
                           raw_text = raw \<rparr>
                 | Some c \<Rightarrow>
                     (let cat_norm = normalize_category_name c;
                          cat = get_or (arg_default_category a) (map_of normalized cat_norm);
                          conf = clamp01
                                   (case conf_raw of
                                      None \<Rightarrow> Fin 0
                                    | Some v \<Rightarrow> get_or (Fin 0) (py_float lib v));
                          reason0 = strip
                                      (case reason_raw of
                                         None \<Rightarrow> []
                                       | Some v \<Rightarrow> if truthy lib v then py_str lib v else []);
                          reason1 = (if length reason0 > 200 then rstrip (take 200 reason0)
                                     else reason0);
                          reason2 = (if reason1 = []
                                     then ''llm classified in ''
                                          @ format_2f lib (elapsed_seconds env) @ ''s''
                                     else reason1)
                      in Inr \<lparr> llm_category = cat, confidence = conf,
                               llm_reason = reason2, raw_text = raw \<rparr>)))"

definition llm_classify_category ::
  "pylib \<Rightarrow> environment \<Rightarrow> classify_args \<Rightarrow> doc_attrs \<Rightarrow> world
     \<Rightarrow> (error + llm_classification) \<times> world" where
  "llm_classify_category lib env a d w =
     (if arg_provider a \<noteq> ''uzu''
      then (Inl (LLMError ''Only the local UZU provider is supported.''), w)
      else
        let allowed = dedupe_first (arg_categories a @ [arg_default_category a]);
            prompt = build_categorization_prompt env allowed (arg_default_category a)
                       (d\<lparr> source_path := format_source_path env (source_path d)
                                               (arg_path_mode a) (arg_path_tail_parts a) \<rparr>);
            base_url = strip (get_or ''http://localhost:8000'' (uzu_base_url env))
        in case classify_with_uzu env base_url
                  (if arg_model a = [] then None else Some (arg_model a))
                  prompt (arg_timeout_seconds a) (arg_max_output_tokens a) w of
             (res, w1) \<Rightarrow>
               ((case res of Inl e \<Rightarrow> Inl e | Inr raw \<Rightarrow> classify_reply lib env a raw), w1))"

section \<open>catalog.py: the per-document decision of categorize_library\<close>

text \<open>The keyword arguments of \<^verbatim>\<open>categorize_library\<close> about the LLM, after the function
  has lower-cased, stripped and checked them.\<close>

record llm_options =
  llm_provider :: string
  llm_model :: string
  llm_mode :: string
  llm_min_confidence :: real
  llm_timeout_seconds :: real
  llm_max_output_tokens :: int
  llm_path_mode :: string
  llm_path_tail_parts :: int

record counters =
  updated :: nat
  llm_calls :: nat
  llm_used :: nat
  llm_failed :: nat

text \<open>The test of the \<^verbatim>\<open>fallback\<close> mode on the rule result.\<close>

definition fallback_gate :: "config \<Rightarrow> categorization \<Rightarrow> bool" where
  "fallback_gate cfg r =
     (category r = default_category_of cfg
      \<or> startswith (reason r) ''below min_score''
      \<or> score r < min_score_of cfg)"

definition should_call_llm :: "config \<Rightarrow> llm_options \<Rightarrow> categorization \<Rightarrow> bool" where
  "should_call_llm cfg opts r =
     (if llm_mode opts = ''fallback'' then fallback_gate cfg r else llm_mode opts = ''always'')"

text \<open>The keyword arguments with which the loop calls \<^verbatim>\<open>llm_classify_category\<close>.\<close>

definition llm_call_args :: "config \<Rightarrow> string list \<Rightarrow> llm_options \<Rightarrow> classify_args" where
  "llm_call_args cfg categories opts =
     \<lparr> arg_provider = llm_provider opts, arg_model = llm_model opts,
       arg_categories = categories,
       arg_default_category = default_category_of cfg,
       arg_timeout_seconds = llm_timeout_seconds opts,
       arg_max_output_tokens = llm_max_output_tokens opts,
       arg_path_mode = llm_path_mode opts,
       arg_path_tail_parts = llm_path_tail_parts opts \<rparr>"

text \<open>
  What the loop does with the outcome of the call: the \<^verbatim>\<open>try\<close> block after the call and
  its \<^verbatim>\<open>except LLMError\<close> handler. \<open>cat_rules\<close> is the rule result; an exception other
  than \<^verbatim>\<open>LLMError\<close> is not caught.
\<close>

definition merge_llm_result ::
  "pylib \<Rightarrow> llm_options \<Rightarrow> categorization \<Rightarrow> counters \<Rightarrow> error + llm_classification
     \<Rightarrow> error + categorization \<times> counters" where
  "merge_llm_result lib opts cat_rules cnt res =
     (case res of
        Inr llm_result \<Rightarrow>
          if confidence llm_result \<ge> llm_min_confidence opts
          then Inr (\<lparr> category = llm_category llm_result,
                      score = 10 * confidence llm_result,
                      reason = ''llm:'' @ llm_provider opts @ ''/'' @ llm_model opts
                               @ '' conf='' @ format_2f lib (confidence llm_result)
                               @ ''; '' @ llm_reason llm_result \<rparr>,
                    cnt\<lparr> llm_used := llm_used cnt + 1 \<rparr>)
          else Inr (cat_rules\<lparr> reason := reason cat_rules @ '' | llm:''
                               @ llm_provider opts @ ''/'' @ llm_model opts
                               @ '' low_conf='' @ format_2f lib (confidence llm_result) \<rparr>,
                    cnt)
      | Inl (LLMError msg) \<Rightarrow>
          Inr (cat_rules\<lparr> reason := reason cat_rules @ '' | llm_error:'' @ take 200 msg \<rparr>,
               cnt\<lparr> llm_failed := llm_failed cnt + 1 \<rparr>)
      | Inl (OtherError msg) \<Rightarrow> Inl (OtherError msg))"

text \<open>
  The body of the loop over the documents from the call of \<^verbatim>\<open>categorize\<close> on: the
  document's attributes are the arguments that the loop has read from the metadata.
  The result is the final category, score and reason that are written to the manifest,
  with the counters; an exception that is not caught leaves the loop.
\<close>

definition categorize_document ::
  "pylib \<Rightarrow> environment \<Rightarrow> config \<Rightarrow> string list \<Rightarrow> llm_options \<Rightarrow> bool \<Rightarrow> doc_attrs
     \<Rightarrow> counters \<Rightarrow> world \<Rightarrow> (error + categorization \<times> counters) \<times> world" where
  "categorize_document lib env cfg categories opts use_text d cnt w =
     (let cat_rules = categorize cfg d
      in case (if llm_provider opts \<noteq> ''off'' \<and> should_call_llm cfg opts cat_rules
               then (case llm_classify_category lib env (llm_call_args cfg categories opts)
                            (d\<lparr> text_sample := (if use_text then text_sample d else None) \<rparr>) w of
                       (res, w1) \<Rightarrow>
                         (merge_llm_result lib opts cat_rules
                            (cnt\<lparr> llm_calls := llm_calls cnt + 1 \<rparr>) res, w1))
               else (Inr (cat_rules, cnt), w)) of
           (Inl e, w2) \<Rightarrow> (Inl e, w2)
         | (Inr (final, c), w2) \<Rightarrow> (Inr (final, c\<lparr> updated := updated c + 1 \<rparr>), w2))"

section \<open>scanner.py and db.py: one scan pass\<close>

text \<open>A row of the table \<^verbatim>\<open>source_files\<close>; its key \<^verbatim>\<open>source_path\<close> is the key of the map.\<close>

record source_rec =
  src_basename :: "string option"
  src_size :: "int option"
  src_mtime :: "real option"
  src_hash :: "string option"
  src_first_seen_at :: real
  src_last_seen_at :: real
  src_status :: string
  src_error :: "string option"

text \<open>The columns of the table \<^verbatim>\<open>documents\<close> that a scan writes; its key is the hash.\<close>

record document_rec =
  doc_vault_relpath :: string
  doc_file_size :: int
  doc_first_seen_at :: real
  doc_last_seen_at :: real

text \<open>
  The state a scan pass works on: the two tables, the files of the vault by their
  location, the list of the source files that were opened to be copied and hashed, and
  the counters of \<^verbatim>\<open>stats\<close>.
\<close>

record scan_state =
  source_files :: "string \<rightharpoonup> source_rec"
  documents :: "string \<rightharpoonup> document_rec"
  vault :: "path \<rightharpoonup> string"
  files_read :: "string list"
  discovered :: nat
  skipped_unchanged :: nat
  copied_new :: nat
  deduped_existing :: nat
  errors :: nat

text \<open>
  The file system as the scan meets it: \<^verbatim>\<open>src.stat()\<close> gives the size and the
  modification time or raises an \<^verbatim>\<open>OSError\<close> with a message, reading the file for the
  copy gives its bytes or raises, and \<open>sha256_hexdigest\<close> is the hash function.
\<close>

record filesystem =
  stat_of :: "string \<Rightarrow> string + int \<times> real"
  read_of :: "string \<Rightarrow> string + string"
  sha256_hexdigest :: "string \<Rightarrow> string"

definition touch_source_seen ::
  "(string \<rightharpoonup> source_rec) \<Rightarrow> string \<Rightarrow> real \<Rightarrow> (string \<rightharpoonup> source_rec)" where
  "touch_source_seen tbl spath seen_at =
     (case tbl spath of
        None \<Rightarrow> tbl
      | Some r \<Rightarrow> tbl(spath \<mapsto> r\<lparr> src_last_seen_at := seen_at \<rparr>))"

text \<open>\<^verbatim>\<open>INSERT ... ON CONFLICT(source_path) DO UPDATE\<close>: on a conflict every column but
  \<^verbatim>\<open>first_seen_at\<close> is overwritten.\<close>

definition upsert_source ::
  "(string \<rightharpoonup> source_rec) \<Rightarrow> string \<Rightarrow> source_rec \<Rightarrow> (string \<rightharpoonup> source_rec)" where
  "upsert_source tbl spath new =
     (case tbl spath of
        None \<Rightarrow> tbl(spath \<mapsto> new)
      | Some old \<Rightarrow> tbl(spath \<mapsto> new\<lparr> src_first_seen_at := src_first_seen_at old \<rparr>))"

definition upsert_document_seen ::
  "(string \<rightharpoonup> document_rec) \<Rightarrow> string \<Rightarrow> document_rec \<Rightarrow> (string \<rightharpoonup> document_rec)" where
  "upsert_document_seen tbl hash_hex new =
     (case tbl hash_hex of
        None \<Rightarrow> tbl(hash_hex \<mapsto> new)
      | Some old \<Rightarrow> tbl(hash_hex \<mapsto> new\<lparr> doc_first_seen_at := doc_first_seen_at old \<rparr>))"

text \<open>\<^verbatim>\<open>Path.name\<close>: the last part, empty for the root and for the empty path.\<close>

definition path_name :: "path \<Rightarrow> string" where
  "path_name p = (if p = [] \<or> p = [''/''] \<or> p = [''//''] then [] else last p)"

text \<open>
  \<^verbatim>\<open>_copy_into_vault\<close>: the hash, the vault location, the bytes written, whether the file
  was new, and the vault afterwards; an \<^verbatim>\<open>OSError\<close> when the source cannot be read.
\<close>

definition copy_into_vault ::
  "filesystem \<Rightarrow> path \<Rightarrow> string \<Rightarrow> (path \<rightharpoonup> string)
     \<Rightarrow> string + string \<times> path \<times> int \<times> bool \<times> (path \<rightharpoonup> string)" where
  "copy_into_vault fs lib_root src v =
     (case read_of fs src of
        Inl e \<Rightarrow> Inl e
      | Inr content \<Rightarrow>
          (let sha256_hex = sha256_hexdigest fs content;
               bytes_written = int (length content);
               vault_path = vault_path_for_hash lib_root sha256_hex
           in if v vault_path \<noteq> None
              then Inr (sha256_hex, vault_path, bytes_written, False, v)
              else Inr (sha256_hex, vault_path, bytes_written, True, v(vault_path \<mapsto> content))))"

text \<open>The body of the loop of \<^verbatim>\<open>scan_and_copy\<close> for one path that the finder yields.\<close>

definition scan_source :: "filesystem \<Rightarrow> path \<Rightarrow> real \<Rightarrow> string \<Rightarrow> scan_state \<Rightarrow> scan_state" where
  "scan_source fs lib_root now src_str s0 =
     (let s = s0\<lparr> discovered := discovered s0 + 1 \<rparr>;
          base = path_name (Path src_str)
      in case stat_of fs src_str of
           Inl e \<Rightarrow>
             s\<lparr> errors := errors s + 1,
                source_files := upsert_source (source_files s) src_str
                  \<lparr> src_basename = Some base, src_size = None, src_mtime = None,
                    src_hash = None, src_first_seen_at = now, src_last_seen_at = now,
                    src_status = ''unreadable'', src_error = Some e \<rparr> \<rparr>
         | Inr (st_size, st_mtime) \<Rightarrow>
             if (case source_files s src_str of
                   None \<Rightarrow> False
                 | Some rec \<Rightarrow> src_status rec = ''ok'' \<and> src_size rec = Some st_size
                               \<and> src_mtime rec = Some st_mtime)
             then s\<lparr> skipped_unchanged := skipped_unchanged s + 1,
                     source_files := touch_source_seen (source_files s) src_str now \<rparr>
             else
               (case copy_into_vault fs lib_root src_str (vault s) of
                  Inl e \<Rightarrow>
                    s\<lparr> files_read := files_read s @ [src_str],
                       errors := errors s + 1,
                       source_files := upsert_source (source_files s) src_str
                         \<lparr> src_basename = Some base, src_size = Some st_size,
                           src_mtime = Some st_mtime, src_hash = None,
                           src_first_seen_at = now, src_last_seen_at = now,
                           src_status = ''error'', src_error = Some e \<rparr> \<rparr>
                | Inr (hash_hex, vault_path, bytes_written, was_copied, v) \<Rightarrow>
                    s\<lparr> files_read := files_read s @ [src_str],
                       vault := v,
                       documents := upsert_document_seen (documents s) hash_hex
                         \<lparr> doc_vault_relpath = join ''/'' (drop (length lib_root) vault_path),
                           doc_file_size = bytes_written,
                           doc_first_seen_at = now, doc_last_seen_at = now \<rparr>,
                       source_files := upsert_source (source_files s) src_str
                         \<lparr> src_basename = Some base, src_size = Some st_size,
                           src_mtime = Some st_mtime, src_hash = Some hash_hex,
                           src_first_seen_at = now, src_last_seen_at = now,
                           src_status = ''ok'', src_error = None \<rparr>,
                       copied_new := (if was_copied then copied_new s + 1 else copied_new s),
                       deduped_existing := (if was_copied then deduped_existing s
                                            else deduped_existing s + 1) \<rparr>))"

text \<open>
  The pass over the paths that the finder yields. The counters and the list of files read
  start empty; a dry run only counts the paths and leaves the library as it is.
\<close>

definition scan_and_copy ::
  "filesystem \<Rightarrow> path \<Rightarrow> real \<Rightarrow> bool \<Rightarrow> string list \<Rightarrow> scan_state \<Rightarrow> scan_state" where
  "scan_and_copy fs lib_root now dry_run paths s0 =
     (let s = s0\<lparr> files_read := [], discovered := 0, skipped_unchanged := 0, copied_new := 0,
                  deduped_existing := 0, errors := 0 \<rparr>
      in if dry_run then s\<lparr> discovered := length paths \<rparr>
         else fold (scan_source fs lib_root now) paths s)"

section \<open>Test doubles for concrete inputs\<close>

text \<open>
  Three replies of the provider and the objects that \<^verbatim>\<open>json.loads\<close> reads from them. As
  in \<^verbatim>\<open>tools/test_integration_uzu.py\<close>, whose \<^verbatim>\<open>fake_http_post_json\<close> wraps a fixed
  object in a chat completion, \<open>fake_env reply\<close> is an environment whose server answers
  every request with \<open>reply\<close>, and \<open>fake_lib\<close> is a library that parses the three replies
  and nothing else.
\<close>

definition reply_cooking :: string where
  \<open>reply_cooking = ''{"category": "Cooking", "confidence": 0.9, "reason": "recipes"}''\<close>

definition parsed_cooking :: pyval where
  "parsed_cooking =
     PDict [(PStr ''category'', PStr ''Cooking''), (PStr ''confidence'', PFloat (Fin 0.9)),
            (PStr ''reason'', PStr ''recipes'')]"

definition reply_invoice :: string where
  \<open>reply_invoice =
     ''{"category": "Receipts & Invoices", "confidence": 0.9, "reason": "invoice keyword"}''\<close>

definition parsed_invoice :: pyval where
  "parsed_invoice =
     PDict [(PStr ''category'', PStr ''Receipts & Invoices''),
            (PStr ''confidence'', PFloat (Fin 0.9)), (PStr ''reason'', PStr ''invoice keyword'')]"

definition reply_unsure :: string where
  \<open>reply_unsure = ''{"category": "Unsorted", "confidence": 0.2, "reason": "no signal"}''\<close>

definition parsed_unsure :: pyval where
  "parsed_unsure =
     PDict [(PStr ''category'', PStr ''Unsorted''), (PStr ''confidence'', PFloat (Fin 0.2)),
            (PStr ''reason'', PStr ''no signal'')]"

definition fake_json :: "string \<Rightarrow> pyval option" where
  "fake_json = map_of [(reply_cooking, parsed_cooking), (reply_invoice, parsed_invoice),
                       (reply_unsure, parsed_unsure)]"

definition fake_format_2f :: "real \<Rightarrow> string" where
  "fake_format_2f r = (if r = 0.9 then ''0.90'' else if r = 0.2 then ''0.20'' else ''0.00'')"

definition fake_lib :: pylib where
  "fake_lib =
     \<lparr> code_fence_sub = (\<lambda>t. t), replace_smart_quotes = (\<lambda>t. t),
       json_loads = fake_json, raw_decode = fake_json, literal_eval = (\<lambda>t. None),
       re_search = (\<lambda>p t. None), float_of_str = (\<lambda>t. None),
       float_of_other = (\<lambda>n. None), truthy_other = (\<lambda>n. True),
       repr = (\<lambda>v. ''<object>''), format_2f = fake_format_2f \<rparr>"

definition fake_env :: "string \<Rightarrow> environment" where
  "fake_env reply =
     \<lparr> uzu_base_url = Some ''http://localhost:8000'',
       http_post_json =
         (\<lambda>req. Inr (PDict [(PStr ''choices'',
                     PList [PDict [(PStr ''message'',
                                    PDict [(PStr ''role'', PStr ''assistant''),
                                           (PStr ''content'', PStr reply)]),
                                   (PStr ''finish_reason'', PStr ''stop'')]])])),
       elapsed_seconds = 0.01,
       format_source_path = (\<lambda>p mode n. p),
       build_categorization_prompt = (\<lambda>cats dflt d. ''prompt''),
       response_keys = (\<lambda>r. ''[]'') \<rparr>"

text \<open>A rule set with one rule, two documents and the options of a fallback run.\<close>

definition invoice_cfg :: config where
  "invoice_cfg =
     \<lparr> cfg_default_category = Some ''Unsorted'', cfg_min_score = Some 4,
       cfg_categories =
         [\<lparr> rule_name = Some ''Receipts & Invoices'', min_pages = None, max_pages = None,
            path_keywords_any = [''invoice''], filename_keywords_any = [''invoice''],
            metadata_keywords_any = [], text_keywords_any = [''total due''],
            priority = Some 5 \<rparr>] \<rparr>"

definition invoice_doc :: doc_attrs where
  "invoice_doc =
     \<lparr> source_path = Some ''/home/me/Invoice_2025.pdf'',
       source_basename = Some ''Invoice_2025.pdf'',
       title = None, subject = None, keywords_meta = None, authors = None,
       text_sample = Some ''Invoice Total Due: 5'', page_count = Some 2 \<rparr>"

definition notes_doc :: doc_attrs where
  "notes_doc =
     \<lparr> source_path = Some ''/home/me/notes.pdf'', source_basename = Some ''notes.pdf'',
       title = None, subject = None, keywords_meta = None, authors = None,
       text_sample = None, page_count = None \<rparr>"

definition fallback_opts :: llm_options where
  "fallback_opts =
     \<lparr> llm_provider = ''uzu'', llm_model = ''qwen3-4b'', llm_mode = ''fallback'',
       llm_min_confidence = 0.6, llm_timeout_seconds = 30, llm_max_output_tokens = 200,
       llm_path_mode = ''tail'', llm_path_tail_parts = 3 \<rparr>"

definition always_opts :: llm_options where
  "always_opts = fallback_opts\<lparr> llm_mode := ''always'' \<rparr>"

definition no_counts :: counters where
  "no_counts = \<lparr> updated = 0, llm_calls = 0, llm_used = 0, llm_failed = 0 \<rparr>"

text \<open>A file system with one readable file, and a library that has already seen it.\<close>

definition one_file_fs :: filesystem where
  "one_file_fs =
     \<lparr> stat_of = (\<lambda>p. if p = ''/home/me/a.pdf'' then Inr (3, 1700000000)
                       else Inl ''No such file or directory''),
       read_of = (\<lambda>p. if p = ''/home/me/a.pdf'' then Inr ''abc''
                       else Inl ''No such file or directory''),
       sha256_hexdigest =
         (\<lambda>b. ''ba7816bf8f01cfea414140de5dae2223b00361a396177a9cb410ff61f20015ad'') \<rparr>"

definition seen_rec :: source_rec where
  "seen_rec =
     \<lparr> src_basename = Some ''a.pdf'', src_size = Some 3, src_mtime = Some 1700000000,
       src_hash = Some ''ba7816bf8f01cfea414140de5dae2223b00361a396177a9cb410ff61f20015ad'',
       src_first_seen_at = 1700000100, src_last_seen_at = 1700000100,
       src_status = ''ok'', src_error = None \<rparr>"

definition seen_state :: scan_state where
  "seen_state =
     \<lparr> source_files = [''/home/me/a.pdf'' \<mapsto> seen_rec],
       documents = [''ba7816bf8f01cfea414140de5dae2223b00361a396177a9cb410ff61f20015ad'' \<mapsto>
          \<lparr> doc_vault_relpath =
              ''vault/ba/78/ba7816bf8f01cfea414140de5dae2223b00361a396177a9cb410ff61f20015ad.pdf'',
            doc_file_size = 3, doc_first_seen_at = 1700000100,
            doc_last_seen_at = 1700000100 \<rparr>],
       vault = [[''/'', ''lib'', ''vault'', ''ba'', ''78'',
                 ''ba7816bf8f01cfea414140de5dae2223b00361a396177a9cb410ff61f20015ad.pdf'']
                \<mapsto> ''abc''],
       files_read = [], discovered = 0, skipped_unchanged = 0, copied_new = 0,
       deduped_existing = 0, errors = 0 \<rparr>"

text \<open>A reason that is not empty and does not start with the letter \<^verbatim>\<open>b\<close>.\<close>

definition plain_reason :: "string \<Rightarrow> bool" where
  "plain_reason r = (r \<noteq> [] \<and> hd r \<noteq> CHR ''b'')"

text \<open>The keys of a dictionary are all strings.\<close>

definition str_keyed :: "pydict \<Rightarrow> bool" where
  "str_keyed d = list_all (\<lambda>kv. case fst kv of PStr _ \<Rightarrow> True | _ \<Rightarrow> False) d"

section \<open>Properties of the string helpers\<close>

lemma set_sub_runs:
  "set (sub_runs P rep s) \<subseteq> set rep \<union> {c \<in> set s. \<not> P c}"
proof (induction P rep s rule: sub_runs.induct)
  case (1 P rep)
  show ?case by simp
next
  case (2 P rep c cs)
  show ?case
  proof (cases "P c")
    case True
    have "set (dropWhile P cs) \<subseteq> set cs" by (rule set_dropWhileD [THEN subsetI])
    with 2(1) [OF True] True show ?thesis by auto
  next
    case False
    with 2(2) [OF False] show ?thesis by auto
  qed
qed

lemma set_rstrip: "set (rstrip s) \<subseteq> set s"
proof -
  have "set (dropWhile isspace (rev s)) \<subseteq> set (rev s)"
    by (rule set_dropWhileD [THEN subsetI])
  then show ?thesis by (simp add: rstrip_def)
qed

lemma set_lstrip: "set (lstrip s) \<subseteq> set s"
  unfolding lstrip_def by (rule set_dropWhileD [THEN subsetI])

lemma set_strip: "set (strip s) \<subseteq> set s"
  unfolding strip_def using set_rstrip [of "lstrip s"] set_lstrip [of s] by blast

lemma single_spaces_iff:
  "single_spaces s \<longleftrightarrow> \<not> (\<exists>xs ys. s = xs @ ''  '' @ ys)"
proof (induction s rule: single_spaces.induct)
  case 1
  show ?case by simp
next
  case (2 a)
  show ?case by (auto simp: append_eq_Cons_conv)
next
  case (3 a b cs)
  show ?case
  proof
    assume L: "single_spaces (a # b # cs)"
    show "\<not> (\<exists>xs ys. a # b # cs = xs @ ''  '' @ ys)"
    proof
      assume "\<exists>xs ys. a # b # cs = xs @ ''  '' @ ys"
      then obtain xs ys where e: "a # b # cs = xs @ ''  '' @ ys" by blast
      show False
      proof (cases xs)
        case Nil
        with e L show False by simp
      next
        case (Cons x xs')
        with e have "b # cs = xs' @ ''  '' @ ys" by simp
        then have "\<exists>xs ys. b # cs = xs @ ''  '' @ ys" by blast
        moreover from L have "single_spaces (b # cs)" by simp
        ultimately show False using 3 by blast
      qed
    qed
  next
    assume R: "\<not> (\<exists>xs ys. a # b # cs = xs @ ''  '' @ ys)"
    have "a \<noteq> CHR '' '' \<or> b \<noteq> CHR '' ''"
    proof (rule ccontr)
      assume "\<not> (a \<noteq> CHR '' '' \<or> b \<noteq> CHR '' '')"
      then have "a # b # cs = [] @ ''  '' @ cs" by simp
      with R show False by blast
    qed
    moreover have "\<not> (\<exists>xs ys. b # cs = xs @ ''  '' @ ys)"
    proof
      assume "\<exists>xs ys. b # cs = xs @ ''  '' @ ys"
      then obtain xs ys where "b # cs = xs @ ''  '' @ ys" by blast
      then have "a # b # cs = (a # xs) @ ''  '' @ ys" by simp
      with R show False by blast
    qed
    ultimately show "single_spaces (a # b # cs)" using 3 by simp
  qed
qed

lemma single_spaces_rev: "single_spaces (rev s) = single_spaces s"
proof -
  have "(\<exists>xs ys. rev s = xs @ ''  '' @ ys) \<longleftrightarrow> (\<exists>xs ys. s = xs @ ''  '' @ ys)"
  proof
    assume "\<exists>xs ys. rev s = xs @ ''  '' @ ys"
    then obtain xs ys where "rev s = xs @ ''  '' @ ys" by blast
    then have "rev (rev s) = rev (xs @ ''  '' @ ys)" by simp
    then have "s = rev ys @ ''  '' @ rev xs" by simp
    then show "\<exists>xs ys. s = xs @ ''  '' @ ys" by blast
  next
    assume "\<exists>xs ys. s = xs @ ''  '' @ ys"
    then obtain xs ys where "s = xs @ ''  '' @ ys" by blast
    then have "rev s = rev ys @ ''  '' @ rev xs" by simp
    then show "\<exists>xs ys. rev s = xs @ ''  '' @ ys" by blast
  qed
  then show ?thesis by (simp add: single_spaces_iff)
qed

lemma single_spaces_suffix: "single_spaces (p @ s) \<Longrightarrow> single_spaces s"
  unfolding single_spaces_iff
proof
  assume a: "\<not> (\<exists>xs ys. p @ s = xs @ ''  '' @ ys)" and "\<exists>xs ys. s = xs @ ''  '' @ ys"
  then obtain xs ys where "s = xs @ ''  '' @ ys" by blast
  then have "p @ s = (p @ xs) @ ''  '' @ ys" by simp
  with a show False by blast
qed

lemma single_spaces_prefix: "single_spaces (p @ s) \<Longrightarrow> single_spaces p"
  unfolding single_spaces_iff
proof
  assume a: "\<not> (\<exists>xs ys. p @ s = xs @ ''  '' @ ys)" and "\<exists>xs ys. p = xs @ ''  '' @ ys"
  then obtain xs ys where "p = xs @ ''  '' @ ys" by blast
  then have "p @ s = xs @ ''  '' @ (ys @ s)" by simp
  with a show False by blast
qed

lemma single_spaces_dropWhile: "single_spaces s \<Longrightarrow> single_spaces (dropWhile Q s)"
  using single_spaces_suffix [of "takeWhile Q s" "dropWhile Q s"] by simp

lemma single_spaces_take: "single_spaces s \<Longrightarrow> single_spaces (take n s)"
  using single_spaces_prefix [of "take n s" "drop n s"] by simp

lemma single_spaces_rstrip: "single_spaces s \<Longrightarrow> single_spaces (rstrip s)"
  by (simp add: rstrip_def single_spaces_rev single_spaces_dropWhile)

lemma single_spaces_strip: "single_spaces s \<Longrightarrow> single_spaces (strip s)"
  by (simp add: strip_def lstrip_def single_spaces_rstrip single_spaces_dropWhile)

lemma sub_runs_hd:
  "s \<noteq> [] \<Longrightarrow> \<not> P (hd s) \<Longrightarrow> sub_runs P rep s \<noteq> [] \<and> hd (sub_runs P rep s) = hd s"
  by (cases s) simp_all

lemma sub_runs_after_run:
  "sub_runs P rep (dropWhile P cs) = [] \<or> hd (sub_runs P rep (dropWhile P cs)) = hd (dropWhile P cs) \<and> \<not> P (hd (dropWhile P cs))"
proof (cases "dropWhile P cs")
  case Nil
  show ?thesis unfolding Nil by simp
next
  case (Cons x xs)
  then have "\<not> P x" using hd_dropWhile [of P cs] by simp
  then show ?thesis unfolding Cons by simp
qed

lemma single_spaces_Cons_nonspace:
  "c \<noteq> CHR '' '' \<Longrightarrow> single_spaces r \<Longrightarrow> single_spaces (c # r)"
  by (cases r) simp_all

lemma single_spaces_Cons_space:
  "r = [] \<or> hd r \<noteq> CHR '' '' \<Longrightarrow> single_spaces r \<Longrightarrow> single_spaces (c # r)"
  by (cases r) auto

lemma isspace_space: "isspace CHR '' ''"
  by (simp add: isspace_def)

lemma single_spaces_sub_runs: "single_spaces (sub_runs isspace '' '' s)"
proof (induction "isspace" "'' ''" s rule: sub_runs.induct)
  case 1
  show ?case by simp
next
  case (2 c cs)
  show ?case
  proof (cases "isspace c")
    case True
    have "sub_runs isspace '' '' (dropWhile isspace cs) = []
          \<or> hd (sub_runs isspace '' '' (dropWhile isspace cs)) \<noteq> CHR '' ''"
      using sub_runs_after_run [of isspace "'' ''" cs] isspace_space by metis
    with 2(1) [OF True] True show ?thesis
      by (simp add: single_spaces_Cons_space)
  next
    case False
    then have "c \<noteq> CHR '' ''" using isspace_space by auto
    with 2(2) [OF False] False show ?thesis
      by (simp add: single_spaces_Cons_nonspace)
  qed
qed

lemma length_rstrip: "length (rstrip s) \<le> length s"
  by (simp add: rstrip_def length_dropWhile_le [of isspace "rev s", simplified])

lemma lstrip_hd: "lstrip s = [] \<or> \<not> isspace (hd (lstrip s))"
  unfolding lstrip_def using hd_dropWhile [of isspace s] by blast

lemma rstrip_keeps_hd:
  assumes "s \<noteq> []" and "\<not> isspace (hd s)"
  shows "rstrip s \<noteq> [] \<and> hd (rstrip s) = hd s"
proof -
  from assms(1) obtain x xs where s: "s = x # xs" by (cases s) auto
  with assms(2) have nx: "\<not> isspace x" by simp
  have "dropWhile isspace (rev xs @ [x]) = dropWhile isspace (rev xs) @ [x]"
    using nx by (simp add: dropWhile_append3)
  then have "rstrip s = x # rev (dropWhile isspace (rev xs))"
    by (simp add: rstrip_def s)
  then show ?thesis by (simp add: s)
qed

lemma strip_hd: "strip s = [] \<or> \<not> isspace (hd (strip s))"
proof (cases "lstrip s = []")
  case True
  then show ?thesis by (simp add: strip_def rstrip_def)
next
  case False
  with lstrip_hd [of s] have "\<not> isspace (hd (lstrip s))" by simp
  with False rstrip_keeps_hd [of "lstrip s"] show ?thesis by (simp add: strip_def)
qed

section \<open>The filename sanitizer\<close>

lemma safe_char_underscore: "safe_char CHR ''_''" by (simp add: safe_char_def)
lemma safe_char_space: "safe_char CHR '' ''" by (simp add: safe_char_def)

lemma safe_filename_cases:
  fixes name :: string
  defines "name3 \<equiv> strip (sub_runs isspace '' '' (sub_runs (\<lambda>c. \<not> safe_char c) ''_''
                      (filter (\<lambda>c. c \<noteq> CHR 0x00) (strip name))))"
  shows "safe_filename 160 name =
           (if name3 = [] then ''untitled''
            else if length name3 > 160 then rstrip (take 160 name3) else name3)"
  by (simp add: safe_filename_def name3_def Let_def)

lemma safe_core_chars:
  "set (strip (sub_runs isspace '' '' (sub_runs (\<lambda>c. \<not> safe_char c) ''_'' s))) \<subseteq> Collect safe_char"
proof -
  have a: "set (sub_runs (\<lambda>c. \<not> safe_char c) ''_'' s) \<subseteq> Collect safe_char"
    using set_sub_runs [of "\<lambda>c. \<not> safe_char c" "''_''" s] safe_char_underscore by auto
  have "set (sub_runs isspace '' '' (sub_runs (\<lambda>c. \<not> safe_char c) ''_'' s)) \<subseteq> Collect safe_char"
    using set_sub_runs [of isspace "'' ''" "sub_runs (\<lambda>c. \<not> safe_char c) ''_'' s"] a safe_char_space
    by auto
  then show ?thesis
    using set_strip [of "sub_runs isspace '' '' (sub_runs (\<lambda>c. \<not> safe_char c) ''_'' s)"] by blast
qed

lemma strip_all_space:
  assumes "\<forall>c\<in>set s. isspace c"
  shows "strip s = []"
proof -
  from assms have l: "dropWhile isspace s = []" by simp
  show ?thesis unfolding strip_def lstrip_def rstrip_def l by simp
qed

text \<open>
  C10: for every input the sanitizer with the default limit of 160 returns a non-empty
  name of at most 160 characters, all of them ASCII letters, digits, \<^verbatim>\<open>.\<close>, \<^verbatim>\<open>_\<close>,
  \<^verbatim>\<open>-\<close> or a space, with no two spaces in a row; an input that is empty, only
  whitespace, or empty after the substitutions yields \<^verbatim>\<open>untitled\<close>.
\<close>

theorem safe_filename_wellformed:
  "safe_filename 160 name \<noteq> [] \<and>
   length (safe_filename 160 name) \<le> 160 \<and>
   (\<forall>c\<in>set (safe_filename 160 name). safe_char c) \<and>
   single_spaces (safe_filename 160 name) \<and>
   (strip (sub_runs isspace '' '' (sub_runs (\<lambda>c. \<not> safe_char c) ''_''
       (filter (\<lambda>c. c \<noteq> CHR 0x00) (strip name)))) = [] \<longrightarrow>
      safe_filename 160 name = ''untitled'') \<and>
   ((\<forall>c\<in>set name. isspace c) \<longrightarrow> safe_filename 160 name = ''untitled'')"
proof -
  define name2 where "name2 = sub_runs (\<lambda>c. \<not> safe_char c) ''_'' (filter (\<lambda>c. c \<noteq> CHR 0x00) (strip name))"
  define name3 where "name3 = strip (sub_runs isspace '' '' name2)"
  have sf: "safe_filename 160 name =
           (if name3 = [] then ''untitled''
            else if length name3 > 160 then rstrip (take 160 name3) else name3)"
    using safe_filename_cases [of name] by (simp add: name3_def name2_def)
  have chars3: "set name3 \<subseteq> Collect safe_char"
    unfolding name3_def name2_def by (rule safe_core_chars)
  have ss3: "single_spaces name3"
    unfolding name3_def by (rule single_spaces_strip) (rule single_spaces_sub_runs)
  have hd3: "name3 = [] \<or> \<not> isspace (hd name3)"
    unfolding name3_def by (rule strip_hd)
  have blank: "(\<forall>c\<in>set name. isspace c) \<longrightarrow> name3 = []"
  proof
    assume "\<forall>c\<in>set name. isspace c"
    then have "strip name = []" by (rule strip_all_space)
    have e: "strip [] = []" by (simp add: strip_def lstrip_def rstrip_def)
    show "name3 = []" unfolding name3_def name2_def \<open>strip name = []\<close> by (simp add: e)
  qed
  show ?thesis
  proof (cases "name3 = []")
    case True
    then have r: "safe_filename 160 name = ''untitled''" by (simp add: sf)
    have "\<forall>c\<in>set ''untitled''. safe_char c" by (simp add: safe_char_def)
    then show ?thesis unfolding r by simp
  next
    case False
    note ne = False
    show ?thesis
    proof (cases "length name3 > 160")
      case False
      with ne have r: "safe_filename 160 name = name3" by (simp add: sf)
      from ne blank have nb: "\<not> (\<forall>c\<in>set name. isspace c)" by blast
      from ne have "strip (sub_runs isspace '' '' (sub_runs (\<lambda>c. \<not> safe_char c) ''_''
           (filter (\<lambda>c. c \<noteq> CHR 0x00) (strip name)))) \<noteq> []" by (simp add: name3_def name2_def)
      with r ne False chars3 ss3 nb show ?thesis by auto
    next
      case True
      with ne have r: "safe_filename 160 name = rstrip (take 160 name3)" by (simp add: sf)
      have t: "take 160 name3 \<noteq> [] \<and> hd (take 160 name3) = hd name3"
        using ne by (cases name3) simp_all
      with hd3 ne have "rstrip (take 160 name3) \<noteq> []"
        using rstrip_keeps_hd [of "take 160 name3"] by simp
      moreover have "length (rstrip (take 160 name3)) \<le> 160"
        using length_rstrip [of "take 160 name3"] by simp
      moreover have "set (rstrip (take 160 name3)) \<subseteq> Collect safe_char"
        using set_rstrip [of "take 160 name3"] set_take_subset [of 160 name3] chars3 by blast
      moreover have "single_spaces (rstrip (take 160 name3))"
        using ss3 by (simp add: single_spaces_rstrip single_spaces_take)
      moreover from ne blank have "\<not> (\<forall>c\<in>set name. isspace c)" by blast
      moreover from ne have "strip (sub_runs isspace '' '' (sub_runs (\<lambda>c. \<not> safe_char c) ''_''
           (filter (\<lambda>c. c \<noteq> CHR 0x00) (strip name)))) \<noteq> []" by (simp add: name3_def name2_def)
      ultimately show ?thesis unfolding r by auto
    qed
  qed
qed

theorem safe_filename_wellformed_witness:
  "list_all isspace ''  '' \<and> safe_filename 160 ''  '' = ''untitled'' \<and>
   list_all safe_char (safe_filename 160 ''  '') \<and> single_spaces (safe_filename 160 ''  '')"
  using safe_filename_wellformed [of "''  ''"] by (simp add: isspace_def list_all_iff)

section \<open>The vault location\<close>

lemma split_slash_no_slash: "CHR ''/'' \<notin> set s \<Longrightarrow> split_slash s = [s]"
  by (induction s) auto

lemma Path_simple:
  assumes "s \<noteq> []" "CHR ''/'' \<notin> set s" "s \<noteq> ''.''"
  shows "Path s = [s]"
proof -
  have "takeWhile (\<lambda>c. c = CHR ''/'') s = []"
    using assms(1,2) by (cases s) auto
  then show ?thesis
    using assms by (simp add: Path_def split_slash_no_slash)
qed

lemma div_str_simple:
  assumes "s \<noteq> []" "CHR ''/'' \<notin> set s" "s \<noteq> ''.''"
  shows "div_str p s = p @ [s]"
  using assms by (auto simp add: div_str_def div_path_def Path_simple is_absolute_def)

lemma length2_plain: "length s = 2 \<Longrightarrow> s \<noteq> [] \<and> s \<noteq> ''.''"
  by auto

lemma hexdigit_plain: "hexdigit c \<Longrightarrow> c \<noteq> CHR ''/'' \<and> c \<noteq> CHR ''.''"
  by (auto simp: hexdigit_def)

text \<open>
  C9 (amended): for a hex digest of at least four characters the store location is the
  vault directory, then the digest's first two characters, then the next two, then the
  digest followed by \<^verbatim>\<open>.pdf\<close> as the file name.
\<close>

theorem vault_path_for_hash_fanout:
  assumes hex: "\<forall>c\<in>set h. hexdigit c" and len: "4 \<le> length h"
  shows "vault_path_for_hash lib_root h =
           lib_root @ [''vault'', take 2 h, take 2 (drop 2 h), h @ ''.pdf'']"
proof -
  have a: "take 2 h \<noteq> [] \<and> CHR ''/'' \<notin> set (take 2 h) \<and> take 2 h \<noteq> ''.''"
  proof -
    have "length (take 2 h) = 2" using len by simp
    moreover have "CHR ''/'' \<notin> set (take 2 h)"
      using hex hexdigit_plain set_take_subset [of 2 h] by blast
    ultimately show ?thesis using length2_plain [of "take 2 h"] by blast
  qed
  have b: "take 2 (drop 2 h) \<noteq> [] \<and> CHR ''/'' \<notin> set (take 2 (drop 2 h)) \<and> take 2 (drop 2 h) \<noteq> ''.''"
  proof -
    have "length (take 2 (drop 2 h)) = 2" using len by simp
    moreover have "CHR ''/'' \<notin> set (take 2 (drop 2 h))"
      using hex hexdigit_plain set_take_subset [of 2 "drop 2 h"] set_drop_subset [of 2 h] by blast
    ultimately show ?thesis using length2_plain [of "take 2 (drop 2 h)"] by blast
  qed
  have c: "h @ ''.pdf'' \<noteq> [] \<and> CHR ''/'' \<notin> set (h @ ''.pdf'') \<and> h @ ''.pdf'' \<noteq> ''.''"
    using hex hexdigit_plain by auto
  have v: "vault_dir lib_root = lib_root @ [''vault'']"
    unfolding vault_dir_def by (rule div_str_simple) simp_all
  have p: "div_str (Path (take 2 h)) (take 2 (drop 2 h)) = [take 2 h, take 2 (drop 2 h)]"
    using a b by (simp add: Path_simple div_str_simple)
  have na: "\<not> is_absolute [take 2 h, take 2 (drop 2 h)]"
    using a by (auto simp: is_absolute_def)
  show ?thesis
    using c by (simp add: vault_path_for_hash_def Let_def p v div_path_def na div_str_simple)
qed

theorem vault_path_for_hash_fanout_witness:
  "vault_path_for_hash [''/'', ''Users'', ''me'', ''PDF_Library'']
     ''e3b0c44298fc1c149afbf4c8996fb92427ae41e4649b934ca495991b7852b855'' =
   [''/'', ''Users'', ''me'', ''PDF_Library'', ''vault'', ''e3'', ''b0'',
    ''e3b0c44298fc1c149afbf4c8996fb92427ae41e4649b934ca495991b7852b855.pdf'']"
  using vault_path_for_hash_fanout [of "''e3b0c44298fc1c149afbf4c8996fb92427ae41e4649b934ca495991b7852b855''"
      "[''/'', ''Users'', ''me'', ''PDF_Library'']"]
  by (simp add: hexdigit_def)

text \<open>
  C9 as stated: the file name is not the digest itself; the code appends \<^verbatim>\<open>.pdf\<close>.
\<close>

theorem vault_path_for_hash_filename_counterexample:
  "last (vault_path_for_hash [''/'', ''Users'', ''me'', ''PDF_Library'']
     ''e3b0c44298fc1c149afbf4c8996fb92427ae41e4649b934ca495991b7852b855'')
   \<noteq> ''e3b0c44298fc1c149afbf4c8996fb92427ae41e4649b934ca495991b7852b855''"
  by (simp add: vault_path_for_hash_def vault_dir_def div_str_def div_path_def Path_def
        is_absolute_def Let_def)

section \<open>Properties of the rule scorer\<close>

lemma channel_no_hits: "channel base label [] acc = acc"
  by (simp add: channel_def split: prod.splits)

lemma channel_score_mono: "fst acc \<le> fst (channel base label hits acc)" if "0 \<le> base"
proof (cases "hits = []")
  case True
  then show ?thesis by (simp add: channel_no_hits)
next
  case False
  then have "1 \<le> real (length hits)" by (cases hits) simp_all
  with that False show ?thesis by (cases acc) (simp add: channel_def)
qed

lemma rule_score_no_match:
  "no_channel_matches d cat \<Longrightarrow>
   rule_score (haystacks_of d) cat = (get_or 0 (priority cat) * 0.000001, [])"
  by (simp add: no_channel_matches_def rule_score_def channel_no_hits)

lemma categorize_rule_cases:
  "categorize_rule h pages cat best = best \<or>
   score best < score (categorize_rule h pages cat best)"
  by (auto simp: categorize_rule_def Let_def split: prod.splits option.splits)

lemma categorize_rule_nonneg:
  "0 \<le> score best \<Longrightarrow> 0 \<le> score (categorize_rule h pages cat best)"
  using categorize_rule_cases [of h pages cat best] by auto

lemma categorize_loop_nonneg:
  "0 \<le> score best \<Longrightarrow> 0 \<le> score (categorize_loop h pages cats best)"
  by (induction cats arbitrary: best) (simp_all add: categorize_rule_nonneg)

text \<open>
  C8: for every document and every rule set, whatever the priorities of its rules, the
  score of the returned categorization is not negative.
\<close>

theorem categorize_score_nonneg: "0 \<le> score (categorize cfg d)"
proof -
  have "0 \<le> score (categorize_loop (haystacks_of d) (page_count d) (cfg_categories cfg)
           \<lparr> category = default_category_of cfg, score = 0, reason = ''no rules matched'' \<rparr>)"
    by (rule categorize_loop_nonneg) simp
  then show ?thesis by (simp add: categorize_def Let_def)
qed

lemma categorize_rule_no_match:
  assumes "no_channel_matches d cat" and "get_or 0 (priority cat) \<le> 0" and "0 \<le> score best"
  shows "categorize_rule (haystacks_of d) pages cat best = best"
proof -
  have "get_or 0 (priority cat) * 0.000001 \<le> 0"
    using assms(2) by (simp add: mult_le_0_iff)
  with assms(3) have "\<not> get_or 0 (priority cat) * 0.000001 > score best" by simp
  then show ?thesis
    by (simp add: categorize_rule_def Let_def rule_score_no_match [OF assms(1)])
qed

lemma categorize_loop_no_match:
  assumes "\<forall>cat\<in>set cats. no_channel_matches d cat \<and> get_or 0 (priority cat) \<le> 0"
    and "0 \<le> score best"
  shows "categorize_loop (haystacks_of d) pages cats best = best"
  using assms by (induction cats) (simp_all add: categorize_rule_no_match)

text \<open>
  C3 (amended): when no keyword channel of any rule matches and no rule has a positive
  priority, the scorer returns the default category with score 0; the reason is
  \<^verbatim>\<open>no rules matched\<close> when the configured minimum score is not above 0.
\<close>

theorem categorize_no_match_default:
  assumes "\<forall>cat\<in>set (cfg_categories cfg).
             no_channel_matches d cat \<and> get_or 0 (priority cat) \<le> 0"
  shows "category (categorize cfg d) = default_category_of cfg \<and>
         score (categorize cfg d) = 0 \<and>
         (min_score_of cfg \<le> 0 \<longrightarrow> reason (categorize cfg d) = ''no rules matched'')"
proof -
  have "categorize_loop (haystacks_of d) (page_count d) (cfg_categories cfg)
           \<lparr> category = default_category_of cfg, score = 0, reason = ''no rules matched'' \<rparr>
        = \<lparr> category = default_category_of cfg, score = 0, reason = ''no rules matched'' \<rparr>"
    by (rule categorize_loop_no_match [OF assms]) simp
  then show ?thesis by (simp add: categorize_def Let_def)
qed


section \<open>Properties of the response extractor\<close>

lemma str_keyed_Nil: "str_keyed []"
  by (simp add: str_keyed_def)

lemma str_keyed_update: "str_keyed d \<Longrightarrow> str_keyed (dict_set k v d)"
  unfolding dict_set_def str_keyed_def
  by (induction d) auto

lemma str_keyed_regex: "str_keyed (extract_object_by_regex lib text)"
  by (simp add: extract_object_by_regex_def Let_def str_keyed_Nil str_keyed_update
      split: option.splits)

lemma str_keyed_fold:
  "str_keyed acc \<Longrightarrow> str_keyed (fold (\<lambda>(k, v) d. dict_set (py_str lib k) v d) obj2 acc)"
  by (induction obj2 arbitrary: acc) (auto simp: str_keyed_update)

lemma str_keyed_str_keys: "str_keyed (str_keys lib obj2)"
  unfolding str_keys_def by (rule str_keyed_fold) (rule str_keyed_Nil)

lemma as_dict_Some: "as_dict v = Some d \<longleftrightarrow> v = Some (PDict d)"
  by (auto simp: as_dict_def split: option.splits pyval.splits)

lemma scan_candidates_keyed:
  assumes "\<And>s d. raw_decode lib s = Some (PDict d) \<Longrightarrow> str_keyed d"
  shows "\<forall>obj\<in>set (scan_candidates lib t). str_keyed obj"
  using assms
  by (induction lib t rule: scan_candidates.induct) (auto simp: as_dict_Some split: option.splits)


lemma extract_empty:
  "strip text = [] \<Longrightarrow> extract_json_object lib text = Inl (LLMError ''Empty model output'')"
  by (simp add: extract_json_object_def)

lemma extract_returns:
  assumes ne: "strip text \<noteq> []"
    and jl: "\<And>s d. json_loads lib s = Some (PDict d) \<Longrightarrow> str_keyed d"
    and rd: "\<And>s d. raw_decode lib s = Some (PDict d) \<Longrightarrow> str_keyed d"
  shows "\<exists>m. extract_json_object lib text = Inr m \<and> str_keyed m"
proof -
  define t2 where "t2 = replace_smart_quotes lib (strip (code_fence_sub lib (strip text)))"
  define cands where "cands = scan_candidates lib t2"
  define direct where "direct = (if startswith t2 ''{'' \<and> endswith t2 ''}''
                         then as_dict (json_loads lib t2) else None)"
  define cand where "cand = slice t2 (str_find t2 CHR ''{'') (str_rfind t2 CHR ''}'' + 1)"
  define last_resort where "last_resort =
     (if str_find t2 CHR ''{'' = - 1 \<or> str_rfind t2 CHR ''}'' = - 1
         \<or> str_rfind t2 CHR ''}'' \<le> str_find t2 CHR ''{''
      then Inr (extract_object_by_regex lib t2) :: error + pydict
      else (case as_dict (json_loads lib cand) of
              Some obj \<Rightarrow> Inr obj
            | None \<Rightarrow>
                (case as_dict (literal_eval lib cand) of
                   Some obj2 \<Rightarrow> Inr (str_keys lib obj2)
                 | None \<Rightarrow> Inr (extract_object_by_regex lib t2))))"
  have e: "extract_json_object lib text =
     (case direct of
        Some obj \<Rightarrow> Inr obj
      | None \<Rightarrow>
          (case find (\<lambda>obj. is_str (dict_get obj ''category'')) cands of
             Some obj \<Rightarrow> Inr obj
           | None \<Rightarrow> (case cands of obj # _ \<Rightarrow> Inr obj | [] \<Rightarrow> last_resort)))"
    unfolding direct_def last_resort_def cand_def cands_def t2_def extract_json_object_def Let_def
    using ne by simp
  have ck: "\<forall>obj\<in>set cands. str_keyed obj"
    unfolding cands_def using rd by (rule scan_candidates_keyed)
  have lr: "\<exists>m. last_resort = Inr m \<and> str_keyed m"
    unfolding last_resort_def
    using jl str_keyed_regex [of lib t2] str_keyed_str_keys [of lib]
    by (auto simp: as_dict_Some split: option.splits)
  show ?thesis
  proof (cases direct)
    case (Some obj)
    then have "json_loads lib t2 = Some (PDict obj)"
      by (auto simp: direct_def as_dict_Some split: if_splits)
    with jl have "str_keyed obj" by blast
    with Some e show ?thesis by simp
  next
    case None
    note d = None
    show ?thesis
    proof (cases "find (\<lambda>obj. is_str (dict_get obj ''category'')) cands")
      case (Some obj)
      then have "obj \<in> set cands" by (auto simp: find_Some_iff)
      with ck have "str_keyed obj" by blast
      with Some d e show ?thesis by simp
    next
      case None
      note f = None
      show ?thesis
      proof (cases cands)
        case Nil
        with d f e lr show ?thesis by simp
      next
        case (Cons obj rest)
        with ck have "str_keyed obj" by simp
        with Cons d f e show ?thesis by simp
      qed
    qed
  qed
qed

lemma extract_returns_keyed:
  assumes "\<And>s d. json_loads lib s = Some (PDict d) \<Longrightarrow> str_keyed d"
    and "\<And>s d. raw_decode lib s = Some (PDict d) \<Longrightarrow> str_keyed d"
    and "extract_json_object lib raw = Inr m"
  shows "str_keyed m"
proof -
  have "strip raw \<noteq> []"
    using assms(3) extract_empty [of raw lib] by auto
  from this assms(1) assms(2) have "\<exists>m'. extract_json_object lib raw = Inr m' \<and> str_keyed m'"
    by (rule extract_returns)
  with assms(3) show ?thesis by auto
qed

lemma extract_returns_any:
  assumes "strip raw \<noteq> []"
  shows "\<exists>m. extract_json_object lib raw = Inr m"
  using assms unfolding extract_json_object_def Let_def
  by (simp split: option.splits list.splits)

text \<open>
  C2 (amended): for every input that is not empty and not only whitespace the extractor
  does not raise and returns a mapping; for an empty or whitespace-only input it raises
  \<^verbatim>\<open>LLMError("Empty model output")\<close>. When the JSON parsers of the library return objects
  with string keys, every mapping that the extractor returns has string keys.
\<close>

theorem extract_json_object_total:
  "(strip raw \<noteq> [] \<longrightarrow> (\<exists>m. extract_json_object lib raw = Inr m)) \<and>
   (strip raw = [] \<longrightarrow> extract_json_object lib raw = Inl (LLMError ''Empty model output'')) \<and>
   ((\<forall>s d. json_loads lib s = Some (PDict d) \<longrightarrow> str_keyed d) \<and>
    (\<forall>s d. raw_decode lib s = Some (PDict d) \<longrightarrow> str_keyed d) \<longrightarrow>
    (\<forall>m. extract_json_object lib raw = Inr m \<longrightarrow> str_keyed m))"
proof (intro conjI impI allI)
  assume "strip raw \<noteq> []"
  then show "\<exists>m. extract_json_object lib raw = Inr m" by (rule extract_returns_any)
next
  assume "strip raw = []"
  then show "extract_json_object lib raw = Inl (LLMError ''Empty model output'')"
    by (rule extract_empty)
next
  fix m
  assume h: "(\<forall>s d. json_loads lib s = Some (PDict d) \<longrightarrow> str_keyed d) \<and>
             (\<forall>s d. raw_decode lib s = Some (PDict d) \<longrightarrow> str_keyed d)"
    and e: "extract_json_object lib raw = Inr m"
  from h have "\<And>s d. json_loads lib s = Some (PDict d) \<Longrightarrow> str_keyed d"
    and "\<And>s d. raw_decode lib s = Some (PDict d) \<Longrightarrow> str_keyed d" by blast+
  from this e show "str_keyed m" by (rule extract_returns_keyed)
qed

section \<open>Properties of the per-document decision\<close>

lemma classify_with_uzu_calls:
  "provider_calls (snd (classify_with_uzu env b m p t n w)) = provider_calls w + 1"
  by (simp add: classify_with_uzu_def Let_def split: sum.splits)

lemma llm_classify_category_calls:
  assumes "arg_provider a = ''uzu''"
  shows "provider_calls (snd (llm_classify_category lib env a d w)) = provider_calls w + 1"
  using assms classify_with_uzu_calls
  by (simp add: llm_classify_category_def Let_def split: prod.splits) (metis snd_conv)


lemma snd_finish:
  "snd (case x of (Inl e, w2) \<Rightarrow> (Inl e, w2)
        | (Inr (final, c), w2) \<Rightarrow> (Inr (final, c\<lparr> updated := updated c + 1 \<rparr>), w2)) = snd x"
  by (simp split: prod.splits sum.splits)

lemma categorize_document_calls:
  assumes "llm_provider opts = ''uzu''"
  shows "provider_calls (snd (categorize_document lib env cfg cats opts use_text d cnt w)) =
         provider_calls w + (if should_call_llm cfg opts (categorize cfg d) then 1 else 0)"
proof (cases "should_call_llm cfg opts (categorize cfg d)")
  case False
  then show ?thesis by (simp add: categorize_document_def Let_def)
next
  case True
  define r where "r = llm_classify_category lib env (llm_call_args cfg cats opts)
                     (d\<lparr> text_sample := (if use_text then text_sample d else None) \<rparr>) w"
  have "arg_provider (llm_call_args cfg cats opts) = ''uzu''"
    using assms by (simp add: llm_call_args_def)
  then have c: "provider_calls (snd r) = provider_calls w + 1"
    unfolding r_def by (rule llm_classify_category_calls)
  have "snd (categorize_document lib env cfg cats opts use_text d cnt w) = snd r"
    unfolding categorize_document_def Let_def snd_finish r_def [symmetric] using True assms
    by (simp split: prod.splits)
  with c True show ?thesis by simp
qed

lemma channel_reasons:
  assumes "list_all plain_reason (snd acc)" and "plain_reason label"
  shows "list_all plain_reason (snd (channel base label hits acc))"
  using assms by (cases acc) (auto simp: channel_def plain_reason_def)

lemma rule_score_reasons: "list_all plain_reason (snd (rule_score h cat))"
proof -
  have p: "plain_reason ''path:''" "plain_reason ''filename:''" "plain_reason ''meta:''"
    "plain_reason ''text:''" by (simp_all add: plain_reason_def)
  have "list_all plain_reason (snd
      (channel 4 ''text:'' (any_kw (text_l h) (text_keywords_any cat))
        (channel 3 ''meta:'' (any_kw (meta_l h) (metadata_keywords_any cat))
          (channel 2 ''filename:'' (any_kw (base_l h) (filename_keywords_any cat))
            (channel 2 ''path:'' (any_kw (path_l h) (path_keywords_any cat)) (0, []))))))"
    by (intro channel_reasons p) simp
  then show ?thesis by (auto simp add: rule_score_def split: prod.splits)
qed

lemma join_plain:
  "list_all plain_reason rs \<Longrightarrow> rs \<noteq> [] \<Longrightarrow> plain_reason (join sep rs)"
  by (induction sep rs rule: join.induct) (auto simp: plain_reason_def)

lemma categorize_rule_plain:
  assumes "plain_reason (reason best)"
  shows "plain_reason (reason (categorize_rule h pages cat best))"
proof -
  obtain sc rs where rs: "rule_score h cat = (sc, rs)" by (cases "rule_score h cat")
  with rule_score_reasons [of h cat] have l: "list_all plain_reason rs" by simp
  have j: "join '', '' rs \<noteq> [] \<Longrightarrow> plain_reason (join '', '' rs)"
    using join_plain [OF l] by (cases rs) auto
  have m: "plain_reason ''matched category''" by (simp add: plain_reason_def)
  show ?thesis
    using assms j m by (simp add: categorize_rule_def Let_def rs)
qed

lemma categorize_loop_plain:
  "plain_reason (reason best) \<Longrightarrow> plain_reason (reason (categorize_loop h pages cats best))"
  by (induction cats arbitrary: best) (simp_all add: categorize_rule_plain)

lemma plain_not_below: "plain_reason r \<Longrightarrow> \<not> startswith r ''below min_score''"
  by (cases r) (auto simp: plain_reason_def startswith_def)

lemma categorize_confident_reason:
  assumes "min_score_of cfg \<le> score (categorize cfg d)"
  shows "\<not> startswith (reason (categorize cfg d)) ''below min_score''"
proof -
  define best where "best = categorize_loop (haystacks_of d) (page_count d) (cfg_categories cfg)
       \<lparr> category = default_category_of cfg, score = 0, reason = ''no rules matched'' \<rparr>"
  have "plain_reason (reason best)"
    unfolding best_def by (rule categorize_loop_plain) (simp add: plain_reason_def)
  moreover have "categorize cfg d = best"
    using assms unfolding categorize_def Let_def best_def [symmetric]
    by (simp split: if_splits)
  ultimately show ?thesis by (simp add: plain_not_below)
qed

text \<open>
  C1: in a run with the provider \<^verbatim>\<open>uzu\<close> and the mode \<^verbatim>\<open>fallback\<close>, the loop calls the
  completion provider for a document once if the rule result has the default category, or
  a reason that starts with \<^verbatim>\<open>below min_score\<close>, or a score below the minimum score, and
  not at all otherwise; a rule result with a score of at least the minimum and another
  category than the default gives no call, one with the default category gives one call.
\<close>

theorem fallback_gate_provider_calls:
  assumes "llm_provider opts = ''uzu''" and "llm_mode opts = ''fallback''"
  shows "provider_calls (snd (categorize_document lib env cfg cats opts use_text d cnt w)) =
           provider_calls w +
           (if category (categorize cfg d) = default_category_of cfg
               \<or> startswith (reason (categorize cfg d)) ''below min_score''
               \<or> score (categorize cfg d) < min_score_of cfg
            then 1 else 0)
         \<and> (min_score_of cfg \<le> score (categorize cfg d)
              \<and> category (categorize cfg d) \<noteq> default_category_of cfg \<longrightarrow>
            provider_calls (snd (categorize_document lib env cfg cats opts use_text d cnt w)) =
              provider_calls w)
         \<and> (category (categorize cfg d) = default_category_of cfg \<longrightarrow>
            provider_calls (snd (categorize_document lib env cfg cats opts use_text d cnt w)) =
              provider_calls w + 1)"
proof -
  have g: "should_call_llm cfg opts (categorize cfg d) = fallback_gate cfg (categorize cfg d)"
    using assms(2) by (simp add: should_call_llm_def)
  have 1: "provider_calls (snd (categorize_document lib env cfg cats opts use_text d cnt w)) =
           provider_calls w +
           (if category (categorize cfg d) = default_category_of cfg
               \<or> startswith (reason (categorize cfg d)) ''below min_score''
               \<or> score (categorize cfg d) < min_score_of cfg
            then 1 else 0)"
    unfolding categorize_document_calls [OF assms(1)] g fallback_gate_def by simp
  have 2: "provider_calls (snd (categorize_document lib env cfg cats opts use_text d cnt w)) =
           provider_calls w"
    if "min_score_of cfg \<le> score (categorize cfg d)"
      and "category (categorize cfg d) \<noteq> default_category_of cfg"
    using that categorize_confident_reason [OF that(1)] unfolding 1 by simp
  have 3: "provider_calls (snd (categorize_document lib env cfg cats opts use_text d cnt w)) =
           provider_calls w + 1"
    if "category (categorize cfg d) = default_category_of cfg"
    using that unfolding 1 by simp
  from 1 2 3 show ?thesis by blast
qed

lemma finish_Inr:
  "(case (Inr (final, c), w1) of (Inl e, w2) \<Rightarrow> (Inl e, w2)
        | (Inr (final, c), w2) \<Rightarrow> (Inr (final, c\<lparr> updated := updated c + 1 \<rparr>), w2))
    = (Inr (final, c\<lparr> updated := updated c + 1 \<rparr>), w1)"
  by simp

text \<open>
  C5: when the loop consults the LLM for a document and the call returns a
  classification, the result is the LLM's category with the score \<open>10 * confidence\<close> and
  a reason that names provider, model and confidence exactly if the confidence is at least
  the configured minimum; otherwise it is the rule result with its category and score
  unchanged and a \<^verbatim>\<open>low_conf\<close> note appended to its reason.
\<close>

theorem llm_result_merge:
  assumes "llm_provider opts \<noteq> ''off''"
    and "should_call_llm cfg opts (categorize cfg d)"
    and "llm_classify_category lib env (llm_call_args cfg cats opts)
           (d\<lparr> text_sample := (if use_text then text_sample d else None) \<rparr>) w = (Inr r, w1)"
  shows "categorize_document lib env cfg cats opts use_text d cnt w =
           (if llm_min_confidence opts \<le> confidence r
            then (Inr (\<lparr> category = llm_category r, score = 10 * confidence r,
                         reason = ''llm:'' @ llm_provider opts @ ''/'' @ llm_model opts
                                  @ '' conf='' @ format_2f lib (confidence r)
                                  @ ''; '' @ llm_reason r \<rparr>,
                       cnt\<lparr> llm_calls := llm_calls cnt + 1, llm_used := llm_used cnt + 1,
                            updated := updated cnt + 1 \<rparr>), w1)
            else (Inr ((categorize cfg d)
                         \<lparr> reason := reason (categorize cfg d) @ '' | llm:''
                              @ llm_provider opts @ ''/'' @ llm_model opts
                              @ '' low_conf='' @ format_2f lib (confidence r) \<rparr>,
                       cnt\<lparr> llm_calls := llm_calls cnt + 1, updated := updated cnt + 1 \<rparr>), w1))"
  using assms
  by (simp add: categorize_document_def Let_def merge_llm_result_def)

section \<open>Properties of the scan\<close>

text \<open>
  C6 (amended): for a path whose row has the status \<^verbatim>\<open>ok\<close> and the size and modification
  time that \<^verbatim>\<open>stat\<close> reports, the loop body only sets \<^verbatim>\<open>last_seen_at\<close> of that row and
  adds one to \<^verbatim>\<open>discovered\<close> and to \<^verbatim>\<open>skipped_unchanged\<close>: the other rows, the documents,
  the vault, the list of files read and the other counters stay as they were.
\<close>

theorem scan_source_unchanged:
  assumes "source_files s src = Some rec"
    and "src_status rec = ''ok''"
    and "stat_of fs src = Inr (sz, mtime)"
    and "src_size rec = Some sz"
    and "src_mtime rec = Some mtime"
  shows "scan_source fs lib_root now src s =
           s\<lparr> source_files := (source_files s)(src \<mapsto> rec\<lparr> src_last_seen_at := now \<rparr>),
              discovered := discovered s + 1,
              skipped_unchanged := skipped_unchanged s + 1 \<rparr>"
  using assms by (simp add: scan_source_def Let_def touch_source_seen_def)

text \<open>
  Over a whole pass that is not a dry run, whatever other paths the finder yields and
  however often it yields this one, the row of the unchanged path ends with only
  \<^verbatim>\<open>last_seen_at\<close> set to the time of the pass.
\<close>

lemma scan_source_other_row:
  "p \<noteq> src \<Longrightarrow> source_files (scan_source fs lib_root now p s) src = source_files s src"
  by (simp add: scan_source_def Let_def upsert_source_def touch_source_seen_def
      split: sum.splits prod.splits option.splits)

lemma scan_source_same_row:
  assumes "source_files s src = Some r"
    and "r = rec \<or> r = rec\<lparr> src_last_seen_at := now \<rparr>"
    and "src_status rec = ''ok''"
    and "stat_of fs src = Inr (sz, mtime)"
    and "src_size rec = Some sz"
    and "src_mtime rec = Some mtime"
  shows "source_files (scan_source fs lib_root now src s) src = Some (rec\<lparr> src_last_seen_at := now \<rparr>)"
  using assms by (auto simp add: scan_source_def Let_def touch_source_seen_def)

lemma fold_scan_row:
  assumes "src_status rec = ''ok''"
    and "stat_of fs src = Inr (sz, mtime)"
    and "src_size rec = Some sz"
    and "src_mtime rec = Some mtime"
  shows "source_files s src = Some rec \<or> source_files s src = Some (rec\<lparr> src_last_seen_at := now \<rparr>) \<Longrightarrow>
     source_files (fold (scan_source fs lib_root now) paths s) src =
       (if src \<in> set paths then Some (rec\<lparr> src_last_seen_at := now \<rparr>) else source_files s src)
     \<or> source_files (fold (scan_source fs lib_root now) paths s) src = Some (rec\<lparr> src_last_seen_at := now \<rparr>)"
proof (induction paths arbitrary: s)
  case Nil
  then show ?case by simp
next
  case (Cons p ps)
  show ?case
  proof (cases "p = src")
    case True
    from Cons.prems obtain r where r: "source_files s src = Some r"
      "r = rec \<or> r = rec\<lparr> src_last_seen_at := now \<rparr>" by auto
    have "source_files (scan_source fs lib_root now src s) src = Some (rec\<lparr> src_last_seen_at := now \<rparr>)"
      using r assms by (rule scan_source_same_row)
    then have "source_files (scan_source fs lib_root now p s) src = Some rec \<or>
          source_files (scan_source fs lib_root now p s) src = Some (rec\<lparr> src_last_seen_at := now \<rparr>)"
      using True by simp
    from Cons.IH [OF this] \<open>source_files (scan_source fs lib_root now src s) src = Some (rec\<lparr> src_last_seen_at := now \<rparr>)\<close> True
    show ?thesis by (auto split: if_splits)
  next
    case False
    then have e: "source_files (scan_source fs lib_root now p s) src = source_files s src"
      by (rule scan_source_other_row)
    with Cons.prems have "source_files (scan_source fs lib_root now p s) src = Some rec \<or>
          source_files (scan_source fs lib_root now p s) src = Some (rec\<lparr> src_last_seen_at := now \<rparr>)"
      by simp
    from Cons.IH [OF this] e False show ?thesis by (auto split: if_splits)
  qed
qed

lemma scan_and_copy_unchanged_row:
  assumes "source_files s src = Some rec"
    and "src_status rec = ''ok''"
    and "stat_of fs src = Inr (sz, mtime)"
    and "src_size rec = Some sz"
    and "src_mtime rec = Some mtime"
    and "src \<in> set paths"
  shows "source_files (scan_and_copy fs lib_root now False paths s) src
           = Some (rec\<lparr> src_last_seen_at := now \<rparr>)"
proof -
  define s1 where "s1 = s\<lparr> files_read := [], discovered := 0, skipped_unchanged := 0,
        copied_new := 0, deduped_existing := 0, errors := 0 \<rparr>"
  have "source_files s1 src = Some rec \<or> source_files s1 src = Some (rec\<lparr> src_last_seen_at := now \<rparr>)"
    using assms(1) by (simp add: s1_def)
  from fold_scan_row [OF assms(2-5) this, of lib_root paths] assms(6)
  show ?thesis by (simp add: scan_and_copy_def Let_def s1_def)
qed

section \<open>The rule scorer at concrete inputs\<close>

theorem categorize_score_nonneg_witness:
  "0 \<le> score (categorize
     \<lparr> cfg_default_category = Some ''Unsorted'', cfg_min_score = Some 4,
       cfg_categories =
         [\<lparr> rule_name = Some ''Invoices'', min_pages = None, max_pages = None,
            path_keywords_any = [''invoice''], filename_keywords_any = [''invoice''],
            metadata_keywords_any = [], text_keywords_any = [''total due''],
            priority = Some (- 9000000) \<rparr>] \<rparr>
     \<lparr> source_path = Some ''/home/me/Invoice_2025.pdf'',
       source_basename = Some ''Invoice_2025.pdf'',
       title = None, subject = None, keywords_meta = None, authors = None,
       text_sample = Some ''Invoice Total Due: 5'', page_count = Some 2 \<rparr>)
   \<and> score (categorize
     \<lparr> cfg_default_category = Some ''Unsorted'', cfg_min_score = Some 4,
       cfg_categories =
         [\<lparr> rule_name = Some ''Invoices'', min_pages = None, max_pages = None,
            path_keywords_any = [''invoice''], filename_keywords_any = [''invoice''],
            metadata_keywords_any = [], text_keywords_any = [''total due''],
            priority = Some (- 9000000) \<rparr>] \<rparr>
     \<lparr> source_path = Some ''/home/me/Invoice_2025.pdf'',
       source_basename = Some ''Invoice_2025.pdf'',
       title = None, subject = None, keywords_meta = None, authors = None,
       text_sample = Some ''Invoice Total Due: 5'', page_count = Some 2 \<rparr>) = 0"
proof -
  let ?c = "\<lparr> cfg_default_category = Some ''Unsorted'', cfg_min_score = Some 4,
       cfg_categories =
         [\<lparr> rule_name = Some ''Invoices'', min_pages = None, max_pages = None,
            path_keywords_any = [''invoice''], filename_keywords_any = [''invoice''],
            metadata_keywords_any = [], text_keywords_any = [''total due''],
            priority = Some (- 9000000) \<rparr>] \<rparr>"
  let ?d = "\<lparr> source_path = Some ''/home/me/Invoice_2025.pdf'',
       source_basename = Some ''Invoice_2025.pdf'',
       title = None, subject = None, keywords_meta = None, authors = None,
       text_sample = Some ''Invoice Total Due: 5'', page_count = Some 2 \<rparr>"
  have a: "score (categorize ?c ?d) = 0" by code_simp
  show ?thesis by (rule conjI [OF categorize_score_nonneg a])
qed

theorem categorize_no_match_default_witness:
  "category (categorize
     \<lparr> cfg_default_category = Some ''Unsorted'', cfg_min_score = Some 0,
       cfg_categories =
         [\<lparr> rule_name = Some ''Invoices'', min_pages = None, max_pages = None,
            path_keywords_any = [''invoice''], filename_keywords_any = [''invoice''],
            metadata_keywords_any = [], text_keywords_any = [''total due''],
            priority = Some 0 \<rparr>] \<rparr>
     \<lparr> source_path = Some ''/home/me/notes.pdf'', source_basename = Some ''notes.pdf'',
       title = None, subject = None, keywords_meta = None, authors = None,
       text_sample = None, page_count = None \<rparr>) = ''Unsorted''
   \<and> score (categorize
     \<lparr> cfg_default_category = Some ''Unsorted'', cfg_min_score = Some 0,
       cfg_categories =
         [\<lparr> rule_name = Some ''Invoices'', min_pages = None, max_pages = None,
            path_keywords_any = [''invoice''], filename_keywords_any = [''invoice''],
            metadata_keywords_any = [], text_keywords_any = [''total due''],
            priority = Some 0 \<rparr>] \<rparr>
     \<lparr> source_path = Some ''/home/me/notes.pdf'', source_basename = Some ''notes.pdf'',
       title = None, subject = None, keywords_meta = None, authors = None,
       text_sample = None, page_count = None \<rparr>) = 0
   \<and> reason (categorize
     \<lparr> cfg_default_category = Some ''Unsorted'', cfg_min_score = Some 0,
       cfg_categories =
         [\<lparr> rule_name = Some ''Invoices'', min_pages = None, max_pages = None,
            path_keywords_any = [''invoice''], filename_keywords_any = [''invoice''],
            metadata_keywords_any = [], text_keywords_any = [''total due''],
            priority = Some 0 \<rparr>] \<rparr>
     \<lparr> source_path = Some ''/home/me/notes.pdf'', source_basename = Some ''notes.pdf'',
       title = None, subject = None, keywords_meta = None, authors = None,
       text_sample = None, page_count = None \<rparr>) = ''no rules matched''"
proof -
  let ?c = "\<lparr> cfg_default_category = Some ''Unsorted'', cfg_min_score = Some 0,
       cfg_categories =
         [\<lparr> rule_name = Some ''Invoices'', min_pages = None, max_pages = None,
            path_keywords_any = [''invoice''], filename_keywords_any = [''invoice''],
            metadata_keywords_any = [], text_keywords_any = [''total due''],
            priority = Some 0 \<rparr>] \<rparr>"
  let ?d = "\<lparr> source_path = Some ''/home/me/notes.pdf'', source_basename = Some ''notes.pdf'',
       title = None, subject = None, keywords_meta = None, authors = None,
       text_sample = None, page_count = None \<rparr>"
  have h: "\<forall>cat\<in>set (cfg_categories ?c).
             no_channel_matches ?d cat \<and> get_or 0 (priority cat) \<le> 0"
    by code_simp
  have m: "min_score_of ?c \<le> 0" by (simp add: min_score_of_def get_or_def)
  have u: "default_category_of ?c = ''Unsorted''"
    by (simp add: default_category_of_def get_or_def)
  from categorize_no_match_default [OF h] m u show ?thesis by simp
qed

text \<open>
  C3 as stated fails twice. With the default minimum score of 4 a document that no rule
  matches gets the reason \<^verbatim>\<open>below min_score; defaulted\<close>; and a rule of positive
  priority that matches on no channel still scores \<open>priority * 1e-6\<close>, which is kept as
  the score of the result.
\<close>

theorem categorize_no_match_counterexample:
  "no_channel_matches
     \<lparr> source_path = Some ''/home/me/notes.pdf'', source_basename = Some ''notes.pdf'',
       title = None, subject = None, keywords_meta = None, authors = None,
       text_sample = None, page_count = None \<rparr>
     \<lparr> rule_name = Some ''Invoices'', min_pages = None, max_pages = None,
            path_keywords_any = [''invoice''], filename_keywords_any = [''invoice''],
            metadata_keywords_any = [], text_keywords_any = [''total due''],
            priority = Some 0 \<rparr>
   \<and> reason (categorize
     \<lparr> cfg_default_category = Some ''Unsorted'', cfg_min_score = Some 4,
       cfg_categories =
         [\<lparr> rule_name = Some ''Invoices'', min_pages = None, max_pages = None,
            path_keywords_any = [''invoice''], filename_keywords_any = [''invoice''],
            metadata_keywords_any = [], text_keywords_any = [''total due''],
            priority = Some 0 \<rparr>] \<rparr>
     \<lparr> source_path = Some ''/home/me/notes.pdf'', source_basename = Some ''notes.pdf'',
       title = None, subject = None, keywords_meta = None, authors = None,
       text_sample = None, page_count = None \<rparr>) = ''below min_score; defaulted''
   \<and> no_channel_matches
     \<lparr> source_path = Some ''/home/me/notes.pdf'', source_basename = Some ''notes.pdf'',
       title = None, subject = None, keywords_meta = None, authors = None,
       text_sample = None, page_count = None \<rparr>
     \<lparr> rule_name = Some ''Invoices'', min_pages = None, max_pages = None,
            path_keywords_any = [''invoice''], filename_keywords_any = [''invoice''],
            metadata_keywords_any = [], text_keywords_any = [''total due''],
            priority = Some 5 \<rparr>
   \<and> score (categorize
     \<lparr> cfg_default_category = Some ''Unsorted'', cfg_min_score = Some 4,
       cfg_categories =
         [\<lparr> rule_name = Some ''Invoices'', min_pages = None, max_pages = None,
            path_keywords_any = [''invoice''], filename_keywords_any = [''invoice''],
            metadata_keywords_any = [], text_keywords_any = [''total due''],
            priority = Some 5 \<rparr>] \<rparr>
     \<lparr> source_path = Some ''/home/me/notes.pdf'', source_basename = Some ''notes.pdf'',
       title = None, subject = None, keywords_meta = None, authors = None,
       text_sample = None, page_count = None \<rparr>) = 5 / 1000000"
  by code_simp


section \<open>The classifier and the engine at concrete inputs\<close>

text \<open>
  The two ways a reply can fail to name an allowed category: a category that is missing or
  not a string gives the default category with confidence 0 and the fixed reason; a
  category that is a string but matches no allowed name gives the default category with
  the reply's own clamped confidence.
\<close>

lemma classify_reply_missing_category:
  assumes "extract_json_object lib raw = Inr parsed"
    and "as_str (dict_get parsed ''category'') = None"
  shows "classify_reply lib env a raw =
           Inr \<lparr> llm_category = arg_default_category a, confidence = 0,
                 llm_reason = ''missing/invalid category; defaulted'', raw_text = raw \<rparr>"
  using assms by (simp add: classify_reply_def Let_def)

lemma classify_reply_unmatched_category:
  assumes "extract_json_object lib raw = Inr parsed"
    and "dict_get parsed ''category'' = Some (PStr c)"
    and "map_of (normalized_map (dedupe_first (arg_categories a @ [arg_default_category a])))
           (normalize_category_name c) = None"
  shows "\<exists>r. classify_reply lib env a raw = Inr r
             \<and> llm_category r = arg_default_category a
             \<and> confidence r = clamp01 (case dict_get parsed ''confidence'' of
                                         None \<Rightarrow> Fin 0
                                       | Some v \<Rightarrow> get_or (Fin 0) (py_float lib v))"
  using assms by (simp add: classify_reply_def Let_def as_str_def get_or_def)

text \<open>
  C4: the reply names the category \<^verbatim>\<open>Cooking\<close>, which matches none of the allowed names
  after normalization, with confidence 0.9. The classifier returns the default category,
  but with confidence 0.9 and the reply's reason, not with confidence 0 and the reason
  \<^verbatim>\<open>missing/invalid category; defaulted\<close>.
\<close>

theorem llm_classify_category_unmatched_at_input:
  "dict_get [(PStr ''category'', PStr ''Cooking''), (PStr ''confidence'', PFloat (Fin 0.9)),
             (PStr ''reason'', PStr ''recipes'')] ''category'' = Some (PStr ''Cooking'')
   \<and> map_of (normalized_map (dedupe_first
               ([''Receipts & Invoices'', ''Manuals & Guides''] @ [''Unsorted''])))
        (normalize_category_name ''Cooking'') = None
   \<and> llm_classify_category fake_lib (fake_env reply_cooking)
        \<lparr> arg_provider = ''uzu'', arg_model = ''qwen3-4b'',
          arg_categories = [''Receipts & Invoices'', ''Manuals & Guides''],
          arg_default_category = ''Unsorted'', arg_timeout_seconds = 30,
          arg_max_output_tokens = 200, arg_path_mode = ''tail'', arg_path_tail_parts = 3 \<rparr>
        notes_doc \<lparr> provider_calls = 0 \<rparr>
      = (Inr \<lparr> llm_category = ''Unsorted'', confidence = 9 / 10, llm_reason = ''recipes'',
               raw_text = reply_cooking \<rparr>, \<lparr> provider_calls = 1 \<rparr>)"
  by code_simp

theorem extract_json_object_total_witness:
  "strip reply_cooking \<noteq> []
   \<and> extract_json_object fake_lib reply_cooking =
       Inr [(PStr ''category'', PStr ''Cooking''), (PStr ''confidence'', PFloat (Fin (9 / 10))),
            (PStr ''reason'', PStr ''recipes'')]
   \<and> str_keyed [(PStr ''category'', PStr ''Cooking''),
                 (PStr ''confidence'', PFloat (Fin (9 / 10))),
                 (PStr ''reason'', PStr ''recipes'')]
   \<and> extract_json_object fake_lib ''I cannot tell.'' = Inr []"
proof -
  have jl: "\<forall>s d. json_loads fake_lib s = Some (PDict d) \<longrightarrow> str_keyed d"
    by (auto simp: fake_lib_def fake_json_def parsed_cooking_def parsed_invoice_def
        parsed_unsure_def str_keyed_def split: if_splits)
  have rd: "\<forall>s d. raw_decode fake_lib s = Some (PDict d) \<longrightarrow> str_keyed d"
    by (auto simp: fake_lib_def fake_json_def parsed_cooking_def parsed_invoice_def
        parsed_unsure_def str_keyed_def split: if_splits)
  have a: "strip reply_cooking \<noteq> []" by code_simp
  have b: "extract_json_object fake_lib reply_cooking =
       Inr [(PStr ''category'', PStr ''Cooking''), (PStr ''confidence'', PFloat (Fin (9 / 10))),
            (PStr ''reason'', PStr ''recipes'')]" by code_simp
  have c: "extract_json_object fake_lib ''I cannot tell.'' = Inr []" by code_simp
  from extract_json_object_total [where lib = fake_lib and raw = reply_cooking] jl rd a b
  have "str_keyed [(PStr ''category'', PStr ''Cooking''),
                   (PStr ''confidence'', PFloat (Fin (9 / 10))),
                   (PStr ''reason'', PStr ''recipes'')]" by blast
  with a b c show ?thesis by simp
qed

text \<open>
  C2 as stated fails on the empty string and on a string of whitespace: the extractor
  raises \<^verbatim>\<open>LLMError("Empty model output")\<close>.
\<close>

theorem extract_json_object_empty_counterexample:
  "extract_json_object fake_lib [] = Inl (LLMError ''Empty model output'')
   \<and> extract_json_object fake_lib [CHR '' '', CHR 0x0A] = Inl (LLMError ''Empty model output'')"
  by code_simp

theorem fallback_gate_provider_calls_witness:
  "provider_calls (snd (categorize_document fake_lib (fake_env reply_unsure) invoice_cfg
      [''Receipts & Invoices''] fallback_opts False invoice_doc no_counts
      \<lparr> provider_calls = 0 \<rparr>)) = 0
   \<and> provider_calls (snd (categorize_document fake_lib (fake_env reply_unsure) invoice_cfg
      [''Receipts & Invoices''] fallback_opts False notes_doc no_counts
      \<lparr> provider_calls = 0 \<rparr>)) = 1"
proof -
  have o1: "llm_provider fallback_opts = ''uzu''" by (simp add: fallback_opts_def)
  have o2: "llm_mode fallback_opts = ''fallback''" by (simp add: fallback_opts_def)
  have a: "min_score_of invoice_cfg \<le> score (categorize invoice_cfg invoice_doc)
           \<and> category (categorize invoice_cfg invoice_doc) \<noteq> default_category_of invoice_cfg"
    by code_simp
  have b: "category (categorize invoice_cfg notes_doc) = default_category_of invoice_cfg"
    by code_simp
  note t = fallback_gate_provider_calls [OF o1 o2, where lib = fake_lib
      and env = "fake_env reply_unsure" and cfg = invoice_cfg
      and cats = "[''Receipts & Invoices'']" and use_text = False and cnt = no_counts
      and w = "\<lparr> provider_calls = 0 \<rparr>"]
  from t [where d = invoice_doc] a t [where d = notes_doc] b show ?thesis by simp
qed

theorem llm_result_merge_witness:
  "categorize_document fake_lib (fake_env reply_invoice) invoice_cfg [''Receipts & Invoices'']
      fallback_opts False notes_doc no_counts \<lparr> provider_calls = 0 \<rparr>
   = (Inr (\<lparr> category = ''Receipts & Invoices'', score = 9,
             reason = ''llm:uzu/qwen3-4b conf=0.90; invoice keyword'' \<rparr>,
           \<lparr> updated = 1, llm_calls = 1, llm_used = 1, llm_failed = 0 \<rparr>),
      \<lparr> provider_calls = 1 \<rparr>)
   \<and> categorize_document fake_lib (fake_env reply_unsure) invoice_cfg [''Receipts & Invoices'']
      always_opts False invoice_doc no_counts \<lparr> provider_calls = 0 \<rparr>
   = (Inr (\<lparr> category = ''Receipts & Invoices'', score = 1600001 / 200000,
             reason = ''path:invoice, filename:invoice, text:total due | llm:uzu/qwen3-4b low_conf=0.20'' \<rparr>,
           \<lparr> updated = 1, llm_calls = 1, llm_used = 0, llm_failed = 0 \<rparr>),
      \<lparr> provider_calls = 1 \<rparr>)"
proof -
  have p1: "llm_provider fallback_opts \<noteq> ''off''" by (simp add: fallback_opts_def)
  have g1: "should_call_llm invoice_cfg fallback_opts (categorize invoice_cfg notes_doc)"
    by code_simp
  have h1: "llm_classify_category fake_lib (fake_env reply_invoice)
              (llm_call_args invoice_cfg [''Receipts & Invoices''] fallback_opts)
              (notes_doc\<lparr> text_sample := (if False then text_sample notes_doc else None) \<rparr>)
              \<lparr> provider_calls = 0 \<rparr>
            = (Inr \<lparr> llm_category = ''Receipts & Invoices'', confidence = 9 / 10,
                     llm_reason = ''invoice keyword'', raw_text = reply_invoice \<rparr>,
               \<lparr> provider_calls = 1 \<rparr>)"
    by code_simp
  have p2: "llm_provider always_opts \<noteq> ''off''" by (simp add: always_opts_def fallback_opts_def)
  have g2: "should_call_llm invoice_cfg always_opts (categorize invoice_cfg invoice_doc)"
    by code_simp
  have h2: "llm_classify_category fake_lib (fake_env reply_unsure)
              (llm_call_args invoice_cfg [''Receipts & Invoices''] always_opts)
              (invoice_doc\<lparr> text_sample := (if False then text_sample invoice_doc else None) \<rparr>)
              \<lparr> provider_calls = 0 \<rparr>
            = (Inr \<lparr> llm_category = ''Unsorted'', confidence = 1 / 5,
                     llm_reason = ''no signal'', raw_text = reply_unsure \<rparr>,
               \<lparr> provider_calls = 1 \<rparr>)"
    by code_simp
  have c2: "categorize invoice_cfg invoice_doc =
              \<lparr> category = ''Receipts & Invoices'', score = 1600001 / 200000,
                reason = ''path:invoice, filename:invoice, text:total due'' \<rparr>"
    by code_simp
  have f: "format_2f fake_lib (9 / 10) = ''0.90''" "format_2f fake_lib (1 / 5) = ''0.20''"
    by (simp_all add: fake_lib_def fake_format_2f_def)
  from llm_result_merge [OF p1 g1 h1, of no_counts] llm_result_merge [OF p2 g2 h2, of no_counts]
  show ?thesis
    by (simp add: c2 f fallback_opts_def always_opts_def no_counts_def)
qed

theorem scan_source_unchanged_witness:
  "scan_source one_file_fs [''/'', ''lib''] 1700000200 ''/home/me/a.pdf'' seen_state =
     seen_state\<lparr> source_files := [''/home/me/a.pdf'' \<mapsto> seen_rec\<lparr> src_last_seen_at := 1700000200 \<rparr>],
                 discovered := 1, skipped_unchanged := 1 \<rparr>"
  using scan_source_unchanged [of seen_state "''/home/me/a.pdf''" seen_rec one_file_fs 3
      1700000000 "[''/'', ''lib'']" 1700000200]
  by (simp add: seen_state_def seen_rec_def one_file_fs_def)

text \<open>
  C6 as stated fails on the counters: \<^verbatim>\<open>discovered\<close> is incremented as well as
  \<^verbatim>\<open>skipped_unchanged\<close>; and in a dry run the pass increments \<^verbatim>\<open>discovered\<close> only and
  does not refresh \<^verbatim>\<open>last_seen_at\<close>.
\<close>

theorem scan_source_discovered_counterexample:
  "discovered (scan_source one_file_fs [''/'', ''lib''] 1700000200 ''/home/me/a.pdf'' seen_state)
     \<noteq> discovered seen_state
   \<and> skipped_unchanged (scan_and_copy one_file_fs [''/'', ''lib''] 1700000200 True
        [''/home/me/a.pdf''] seen_state) = 0
   \<and> source_files (scan_and_copy one_file_fs [''/'', ''lib''] 1700000200 True
        [''/home/me/a.pdf''] seen_state) ''/home/me/a.pdf'' = Some seen_rec"
  by (simp add: scan_source_def scan_and_copy_def one_file_fs_def seen_state_def seen_rec_def
      touch_source_seen_def Let_def)

end
